theory Spec2Isabelle
  imports Complex_Main "HOL-Library.Multiset"
begin

section \<open>Strings\<close>

text \<open>
  A Python \<open>str\<close> is a sequence of Unicode code points; lengths and whitespace tests
  count code points, so a string is modelled as the list of its code points.
  \<open>asc\<close> embeds an ASCII literal; the Korean literals of \<open>app.py\<close> are written by
  code point.
\<close>

type_synonym ustr = "nat list"

definition asc :: "string \<Rightarrow> ustr" where
  "asc s = map of_char s"

text \<open>\<open>str.isspace\<close> of one code point: the characters \<open>str.strip()\<close> removes.\<close>

definition py_isspace :: "nat \<Rightarrow> bool" where
  "py_isspace c \<longleftrightarrow>
     (0x09 \<le> c \<and> c \<le> 0x0D) \<or> (0x1C \<le> c \<and> c \<le> 0x20) \<or> c = 0x85 \<or> c = 0xA0 \<or>
     c = 0x1680 \<or> (0x2000 \<le> c \<and> c \<le> 0x200A) \<or> c = 0x2028 \<or> c = 0x2029 \<or>
     c = 0x202F \<or> c = 0x205F \<or> c = 0x3000"

definition strip :: "ustr \<Rightarrow> ustr" where
  "strip s = rev (dropWhile py_isspace (rev (dropWhile py_isspace s)))"

text \<open>\<open>s.split("\n")\<close>: the pieces between line feeds; the empty string gives one empty piece.\<close>

fun split_nl :: "ustr \<Rightarrow> ustr list" where
  "split_nl [] = [[]]"
| "split_nl (c # cs) =
     (if c = 0x0A then [] # split_nl cs
      else (case split_nl cs of [] \<Rightarrow> [[c]] | p # ps \<Rightarrow> (c # p) # ps))"

section \<open>Numbers\<close>

text \<open>
  A Python \<open>float\<close> is an IEEE-754 double: a finite double is the real number it
  denotes, beside the two infinities and NaN. The sign of zero is not kept: nothing in
  \<open>app.py\<close> observes it (\<open>int\<close>, \<open>>=\<close> and \<open>==\<close> do not).
\<close>

datatype pyfloat = Fin real | PInf | NInf | NaN

datatype pynum = PyInt int | PyFloat pyfloat

text \<open>The exceptions a run of \<open>app.py\<close> can meet. \<open>load_products\<close> catches
  \<open>FileNotFoundError\<close> and the shopping screen catches the \<open>ValueError\<close> of one
  \<open>float\<close> call; every other one ends the run.\<close>

datatype exn =
    ValueError
  | OverflowError
  | KeyError
  | FileNotFoundError
  | EmptyDataError
  | ParserError
  | UnicodeDecodeError
  | OSError

text \<open>\<open>int(x)\<close>: the identity on an \<open>int\<close>, truncation toward zero on a finite
  \<open>float\<close>, \<open>ValueError\<close> on NaN and \<open>OverflowError\<close> on an infinity.\<close>

definition trunc :: "real \<Rightarrow> int" where
  "trunc r = (if 0 \<le> r then \<lfloor>r\<rfloor> else \<lceil>r\<rceil>)"

fun py_int :: "pynum \<Rightarrow> exn + int" where
  "py_int (PyInt n) = Inr n"
| "py_int (PyFloat (Fin r)) = Inr (trunc r)"
| "py_int (PyFloat NaN) = Inl ValueError"
| "py_int (PyFloat PInf) = Inl OverflowError"
| "py_int (PyFloat NInf) = Inl OverflowError"

text \<open>The format specification \<open>{n:,}\<close> of an \<open>int\<close>: its decimal digits in groups
  of three from the right, separated by commas, after a minus sign when negative.\<close>

definition digit :: "nat \<Rightarrow> nat" where
  "digit d = 0x30 + d"

fun digits :: "nat \<Rightarrow> ustr" where
  "digits n = (if n < 10 then [digit n] else digits (n div 10) @ [digit (n mod 10)])"

fun group3 :: "nat \<Rightarrow> ustr" where
  "group3 n =
     (if n < 1000 then digits n
      else group3 (n div 1000) @
           [0x2C, digit (n div 100 mod 10), digit (n div 10 mod 10), digit (n mod 10)])"

definition fmt_comma :: "int \<Rightarrow> ustr" where
  "fmt_comma n = (if n < 0 then 0x2D # group3 (nat (- n)) else group3 (nat n))"

text \<open>\<open>str(n)\<close> of an \<open>int\<close>.\<close>

definition str_int :: "int \<Rightarrow> ustr" where
  "str_int n = (if n < 0 then 0x2D # digits (nat (- n)) else digits (nat n))"

subsection \<open>Rounding to a double\<close>

text \<open>
  The result of a floating-point operation is the exact result rounded to the nearest
  double, ties to the even significand. \<open>ilog2 x\<close> is the exponent of \<open>x\<close>, the
  \<open>e\<close> with \<open>2^e \<le> |x| < 2^(e+1)\<close>: a double has 53 significant bits, so it is a
  multiple of \<open>2^(e-52)\<close>, and of \<open>2^-1074\<close> in the subnormal range. A result of
  magnitude \<open>2^1024\<close> or more overflows to an infinity.
\<close>

function halvings :: "real \<Rightarrow> nat" where
  "halvings x = (if x < 2 then 0 else Suc (halvings (x / 2)))"
  by pat_completeness auto
termination
proof (relation "measure (\<lambda>x. nat \<lfloor>x\<rfloor>)")
  show "wf (measure (\<lambda>x::real. nat \<lfloor>x\<rfloor>))" by simp
next
  fix x :: real
  assume "\<not> x < 2"
  then have "x / 2 \<le> x - 1" by simp
  then have "\<lfloor>x / 2\<rfloor> \<le> \<lfloor>x - 1\<rfloor>" by (rule floor_mono)
  moreover have "2 \<le> \<lfloor>x\<rfloor>" using \<open>\<not> x < 2\<close> by (simp add: le_floor_iff)
  ultimately show "(x / 2, x) \<in> measure (\<lambda>x. nat \<lfloor>x\<rfloor>)" by simp
qed

function doublings :: "real \<Rightarrow> nat" where
  "doublings x = (if x \<le> 0 \<or> 1 \<le> x then 0 else Suc (doublings (2 * x)))"
  by pat_completeness auto
termination
proof (relation "measure (\<lambda>x. nat \<lceil>1 / x\<rceil>)")
  show "wf (measure (\<lambda>x::real. nat \<lceil>1 / x\<rceil>))" by simp
next
  fix x :: real
  assume a: "\<not> (x \<le> 0 \<or> 1 \<le> x)"
  then have x: "0 < x" "x < 1" by simp_all
  then have "1 < 1 / x" by simp
  then have c: "2 \<le> \<lceil>1 / x\<rceil>" by (simp add: le_ceiling_iff)
  have "1 / (2 * x) \<le> of_int (\<lceil>1 / x\<rceil>) / 2"
    using le_of_int_ceiling [of "1 / x"] by simp
  also have "\<dots> \<le> of_int (\<lceil>1 / x\<rceil> - 1)"
    using c by simp
  finally have "\<lceil>1 / (2 * x)\<rceil> \<le> \<lceil>1 / x\<rceil> - 1" by (simp only: ceiling_le_iff)
  with c x show "(2 * x, x) \<in> measure (\<lambda>x. nat \<lceil>1 / x\<rceil>)" by simp
qed

declare halvings.simps [simp del] doublings.simps [simp del]

definition ilog2 :: "real \<Rightarrow> int" where
  "ilog2 x = (if 1 \<le> \<bar>x\<bar> then int (halvings \<bar>x\<bar>) else - int (doublings \<bar>x\<bar>))"

definition round_half_even :: "real \<Rightarrow> int" where
  "round_half_even x =
     (let f = \<lfloor>x\<rfloor>; d = x - of_int f
      in if d < 1 / 2 then f else if 1 / 2 < d then f + 1 else if even f then f else f + 1)"

definition round_double :: "real \<Rightarrow> pyfloat" where
  "round_double x =
     (if x = 0 then Fin 0
      else let q = max (ilog2 x - 52) (- 1074);
               y = of_int (round_half_even (x / 2 powi q)) * 2 powi q
           in if 2 ^ 1024 \<le> \<bar>y\<bar> then (if 0 < x then PInf else NInf) else Fin y)"

fun fneg :: "pyfloat \<Rightarrow> pyfloat" where
  "fneg (Fin a) = Fin (- a)"
| "fneg PInf = NInf"
| "fneg NInf = PInf"
| "fneg NaN = NaN"

fun fadd :: "pyfloat \<Rightarrow> pyfloat \<Rightarrow> pyfloat" where
  "fadd (Fin a) (Fin b) = round_double (a + b)"
| "fadd NaN _ = NaN"
| "fadd _ NaN = NaN"
| "fadd PInf NInf = NaN"
| "fadd NInf PInf = NaN"
| "fadd PInf _ = PInf"
| "fadd _ PInf = PInf"
| "fadd NInf _ = NInf"
| "fadd _ NInf = NInf"

definition fsub :: "pyfloat \<Rightarrow> pyfloat \<Rightarrow> pyfloat" where
  "fsub a b = fadd a (fneg b)"

text \<open>\<open>fabs(a) >= fabs(b)\<close> in C: false when either is NaN.\<close>

fun fabs_ge :: "pyfloat \<Rightarrow> pyfloat \<Rightarrow> bool" where
  "fabs_ge NaN _ = False"
| "fabs_ge _ NaN = False"
| "fabs_ge (Fin a) (Fin b) = (\<bar>b\<bar> \<le> \<bar>a\<bar>)"
| "fabs_ge (Fin a) _ = False"
| "fabs_ge _ _ = True"

fun is_finite :: "pyfloat \<Rightarrow> bool" where
  "is_finite (Fin _) = True"
| "is_finite _ = False"

text \<open>\<open>float(n)\<close> of an \<open>int\<close>: the nearest double, \<open>OverflowError\<close> when there is none.\<close>

definition float_of_int :: "int \<Rightarrow> exn + pyfloat" where
  "float_of_int n =
     (case round_double (of_int n) of Fin r \<Rightarrow> Inr (Fin r) | _ \<Rightarrow> Inl OverflowError)"

text \<open>\<open>float(x)\<close> of a number (line 81).\<close>

fun py_float :: "pynum \<Rightarrow> exn + pyfloat" where
  "py_float (PyInt n) = float_of_int n"
| "py_float (PyFloat f) = Inr f"

text \<open>\<open>a - b\<close>, \<open>-a\<close> and \<open>a >= 0\<close> on numbers; an \<open>int\<close> meeting a \<open>float\<close> is
  converted first.\<close>

fun py_sub :: "pynum \<Rightarrow> pynum \<Rightarrow> exn + pynum" where
  "py_sub (PyInt a) (PyInt b) = Inr (PyInt (a - b))"
| "py_sub (PyInt a) (PyFloat g) =
     (case float_of_int a of Inl e \<Rightarrow> Inl e | Inr f \<Rightarrow> Inr (PyFloat (fsub f g)))"
| "py_sub (PyFloat f) (PyInt b) =
     (case float_of_int b of Inl e \<Rightarrow> Inl e | Inr g \<Rightarrow> Inr (PyFloat (fsub f g)))"
| "py_sub (PyFloat f) (PyFloat g) = Inr (PyFloat (fsub f g))"

fun py_neg :: "pynum \<Rightarrow> pynum" where
  "py_neg (PyInt a) = PyInt (- a)"
| "py_neg (PyFloat f) = PyFloat (fneg f)"

fun py_ge0 :: "pynum \<Rightarrow> bool" where
  "py_ge0 (PyInt a) = (0 \<le> a)"
| "py_ge0 (PyFloat (Fin r)) = (0 \<le> r)"
| "py_ge0 (PyFloat PInf) = True"
| "py_ge0 (PyFloat NInf) = False"
| "py_ge0 (PyFloat NaN) = False"

subsection \<open>The builtin sum\<close>

text \<open>
  \<open>sum\<close> starts from the \<open>int\<close> 0 and adds the items from left to right; adding the
  first \<open>float\<close> to 0 gives that \<open>float\<close>. Up to CPython 3.11 each further item is
  added with one floating-point addition; from 3.12 on the additions carry a
  compensation term (Neumaier), added to the total at the end when it is finite and
  not zero. \<open>app.py\<close> runs on either (its annotations need 3.10).
\<close>

datatype interpreter = Before_3_12 | From_3_12

fun plain_loop :: "pyfloat \<Rightarrow> pyfloat list \<Rightarrow> pyfloat" where
  "plain_loop f [] = f"
| "plain_loop f (x # xs) = plain_loop (fadd f x) xs"

fun neumaier_loop :: "pyfloat \<Rightarrow> pyfloat \<Rightarrow> pyfloat list \<Rightarrow> pyfloat" where
  "neumaier_loop f c [] = (if c \<noteq> Fin 0 \<and> is_finite c then fadd f c else f)"
| "neumaier_loop f c (x # xs) =
     (let t = fadd f x;
          c' = (if fabs_ge f x then fadd c (fadd (fsub f t) x) else fadd c (fadd (fsub x t) f))
      in neumaier_loop t c' xs)"

definition py_sum :: "interpreter \<Rightarrow> pyfloat list \<Rightarrow> pynum" where
  "py_sum v xs =
     (case xs of
        [] \<Rightarrow> PyInt 0
      | x # rest \<Rightarrow>
          PyFloat (case v of Before_3_12 \<Rightarrow> plain_loop x rest
                           | From_3_12 \<Rightarrow> neumaier_loop x (Fin 0) rest))"

section \<open>Catalog and session state\<close>

text \<open>A value read from the catalog: pandas hands back an integer, a float (NaN for an
  empty cell) or a string. A row gives the value under each column name.\<close>

datatype cell = CInt int | CFloat pyfloat | CStr ustr

type_synonym row = "ustr \<Rightarrow> cell"

record dataframe =
  columns :: "ustr list"
  rows :: "row list"

text \<open>\<open>df.empty\<close>: no column or no row.\<close>

definition df_empty :: "dataframe \<Rightarrow> bool" where
  "df_empty df \<longleftrightarrow> columns df = [] \<or> rows df = []"

definition empty_frame :: dataframe where
  "empty_frame = \<lparr>columns = [], rows = []\<rparr>"

text \<open>\<open>pd.notna\<close> of a value.\<close>

fun notna :: "cell \<Rightarrow> bool" where
  "notna (CFloat NaN) = False"
| "notna _ = True"

text \<open>A cart entry, as \<open>add_to_cart\<close> builds it (lines 79-82).\<close>

record item =
  name :: cell
  price :: pyfloat
  image_url :: "cell option"

text \<open>\<open>st.session_state\<close> with its five keys and their initial values (lines 19-32).\<close>

record session =
  page :: string
  mission :: "ustr option"
  budget :: int
  cart :: "item list"
  reason :: ustr

definition initial_session :: session where
  "initial_session = \<lparr>page = ''mission'', mission = None, budget = 0, cart = [], reason = []\<rparr>"

section \<open>The world outside the script\<close>

text \<open>
  What a run reads from outside \<open>app.py\<close>: the catalog file as \<open>pd.read_csv\<close> parses
  it, or the exception it raises (\<open>FileNotFoundError\<close> when the file is missing,
  \<open>EmptyDataError\<close> on a file without a header, and so on), Python's \<open>float\<close> of a string (\<open>None\<close> for
  \<open>ValueError\<close>) and \<open>str\<close> of a float, whether \<open>st.image\<close> accepts a value,
  \<open>textwrap.wrap\<close>, the clock as \<open>strftime('%Y%m%d_%H%M%S')\<close> prints it, and the
  interpreter's \<open>sum\<close>.
\<close>

record world =
  products_csv :: "exn + dataframe"
  float_of_str :: "ustr \<Rightarrow> pyfloat option"
  str_float :: "pyfloat \<Rightarrow> ustr"
  image_ok :: "cell \<Rightarrow> bool"
  wrap :: "ustr \<Rightarrow> nat \<Rightarrow> ustr list"
  now :: ustr
  python :: interpreter

text \<open>\<open>str(x)\<close> and \<open>float(x)\<close> of a catalog value.\<close>

fun py_str :: "world \<Rightarrow> cell \<Rightarrow> ustr" where
  "py_str w (CStr s) = s"
| "py_str w (CInt n) = str_int n"
| "py_str w (CFloat f) = str_float w f"

fun float_of_cell :: "world \<Rightarrow> cell \<Rightarrow> exn + pyfloat" where
  "float_of_cell w (CInt n) = float_of_int n"
| "float_of_cell w (CFloat f) = Inr f"
| "float_of_cell w (CStr s) =
     (case float_of_str w s of None \<Rightarrow> Inl ValueError | Some f \<Rightarrow> Inr f)"

section \<open>User interface\<close>

text \<open>
  Streamlit runs the script once per user action. A run reads the widgets' values: the
  button that was clicked (at most one per run), the option the radio holds and the
  content of the text area.
\<close>

datatype click =
    NoClick
  | MissionConfirm
  | ShopGuardBack
  | Add nat
  | ShopBack
  | Buy
  | ResultGuardBack
  | ResultBack
  | Submit

record action =
  clicked :: click
  radio :: ustr
  typed :: ustr

text \<open>What a run shows: every \<open>st.info\<close>, \<open>st.warning\<close>, \<open>st.error\<close>,
  \<open>st.success\<close> and \<open>st.write\<close>, the name of each product (\<open>st.markdown\<close>), the
  images, the table of the cart (with its prices before their cast to integers) and the
  download button. The page titles and subheaders, the markdown headings (\<open>###\<close>) and
  separators (\<open>---\<close>), the column layout and the input widgets themselves (radio, text
  area, buttons) are left out.\<close>

datatype ui =
    Info ustr
  | Warning ustr
  | Error ustr
  | Success ustr
  | Write ustr
  | Markdown ustr
  | Image cell
  | Dataframe "(cell \<times> pyfloat) list"
  | Download_button ustr

text \<open>The image file a submission writes: its path, its size and the lines drawn, each
  at its position.\<close>

record png =
  path :: ustr
  width :: nat
  height :: nat
  drawn :: "(nat \<times> nat \<times> ustr) list"

text \<open>How a run ends: at the end of the script (or a \<open>return\<close> of the page), at
  \<open>st.stop()\<close>, or with an uncaught exception. The session keeps what was assigned
  before the run ended.\<close>

datatype ending = Finished | Stopped | Raised exn

record outcome =
  state :: session
  shown :: "ui list"
  saved :: "png list"
  ended :: ending

section \<open>Literals\<close>

text \<open>The Korean texts of \<open>app.py\<close>, whole or in the pieces its f-strings join:
  column names, the lines of the image (\<open>l_\<close>), the warnings (\<open>w_\<close>) and the other
  messages, in the order of the source.\<close>

definition file_missing :: ustr where
  "file_missing = [0x27] @ asc ''products.csv'' @ [0x27] @ asc '' '' @ [0xD30C, 0xC77C, 0xC744] @ asc '' '' @ [0xCC3E, 0xC744] @ asc '' '' @ [0xC218] @ asc '' '' @ [0xC5C6, 0xC2B5, 0xB2C8, 0xB2E4] @ asc ''. '' @ [0xC571, 0xACFC] @ asc '' '' @ [0xAC19, 0xC740] @ asc '' '' @ [0xD3F4, 0xB354, 0xC5D0] @ asc '' '' @ [0x27] @ asc ''products.csv'' @ [0x27, 0xB97C] @ asc '' '' @ [0xB123, 0xC5B4] @ asc '' '' @ [0xC8FC, 0xC138, 0xC694] @ asc ''.''"

definition col_a :: ustr where
  "col_a = asc ''products.csv'' @ [0xC5D0] @ asc '' '' @ [0x27]"

definition col_b :: ustr where
  "col_b = [0x27] @ asc '' '' @ [0xB610, 0xB294] @ asc '' '' @ [0x27]"

definition col_c :: ustr where
  "col_c = [0x27] @ asc '' '' @ [0xC5F4, 0xC774] @ asc '' '' @ [0xD544, 0xC694, 0xD569, 0xB2C8, 0xB2E4] @ asc ''. (''"

definition col_d :: ustr where
  "col_d = asc '')''"

definition kor_name :: ustr where
  "kor_name = [0xD488, 0xBA85]"

definition kor_name_label :: ustr where
  "kor_name_label = [0xD488, 0xBA85] @ asc ''('' @ [0xC0C1, 0xD488, 0xBA85] @ asc '')''"

definition kor_price :: ustr where
  "kor_price = [0xAC00, 0xACA9]"

definition img1 :: ustr where
  "img1 = [0xC774, 0xBBF8, 0xC9C0] @ asc ''url''"

definition img2 :: ustr where
  "img2 = [0xC774, 0xBBF8, 0xC9C0] @ asc ''URL''"

definition l_mission :: ustr where
  "l_mission = [0xBBF8, 0xC158] @ asc '': ''"

definition l_budget :: ustr where
  "l_budget = [0xC608, 0xC0B0] @ asc '': ''"

definition l_won :: ustr where
  "l_won = [0xC6D0]"

definition l_items :: ustr where
  "l_items = [0x25B6] @ asc '' '' @ [0xAD6C, 0xB9E4, 0xD55C] @ asc '' '' @ [0xBB3C, 0xD488]"

definition l_noitems :: ustr where
  "l_noitems = asc ''- ('' @ [0xAD6C, 0xB9E4, 0xD55C] @ asc '' '' @ [0xBB3C, 0xD488] @ asc '' '' @ [0xC5C6, 0xC74C] @ asc '')''"

definition l_reason :: ustr where
  "l_reason = [0x25B6] @ asc '' '' @ [0xAD6C, 0xB9E4] @ asc '' '' @ [0xC774, 0xC720]"

definition w_shop_guard :: ustr where
  "w_shop_guard = [0xBA3C, 0xC800] @ asc '' '' @ [0xBBF8, 0xC158, 0xC744] @ asc '' '' @ [0xC120, 0xD0DD, 0xD574, 0xC8FC, 0xC138, 0xC694] @ asc ''.''"

definition cur_mission :: ustr where
  "cur_mission = asc ''**'' @ [0xD604, 0xC7AC] @ asc '' '' @ [0xBBF8, 0xC158] @ asc '':** ''"

definition cur_budget :: ustr where
  "cur_budget = asc ''**'' @ [0xC608, 0xC0B0] @ asc '':** ''"

definition img_fail :: ustr where
  "img_fail = asc ''('' @ [0xC774, 0xBBF8, 0xC9C0, 0xB97C] @ asc '' '' @ [0xBD88, 0xB7EC, 0xC62C] @ asc '' '' @ [0xC218] @ asc '' '' @ [0xC5C6, 0xC2B5, 0xB2C8, 0xB2E4] @ asc '')''"

definition img_none :: ustr where
  "img_none = asc ''('' @ [0xC774, 0xBBF8, 0xC9C0] @ asc '' '' @ [0xC5C6, 0xC74C] @ asc '')''"

definition price_lbl :: ustr where
  "price_lbl = [0xAC00, 0xACA9] @ asc '': ''"

definition added_a :: ustr where
  "added_a = [0xC7A5, 0xBC14, 0xAD6C, 0xB2C8, 0xC5D0] @ asc '' '' @ [0x27]"

definition added_b :: ustr where
  "added_b = [0x27, 0xC744] @ asc ''('' @ [0xB97C] @ asc '') '' @ [0xB2F4, 0xC558, 0xC2B5, 0xB2C8, 0xB2E4] @ asc ''.''"

definition total_lbl :: ustr where
  "total_lbl = asc ''**'' @ [0xD569, 0xACC4] @ asc '':** ''"

definition remaining_lbl :: ustr where
  "remaining_lbl = [0xB0A8, 0xC740] @ asc '' '' @ [0xC608, 0xC0B0] @ asc '': ''"

definition over_a :: ustr where
  "over_a = [0xC608, 0xC0B0, 0xC744] @ asc '' ''"

definition over_b :: ustr where
  "over_b = [0xC6D0] @ asc '' '' @ [0xCD08, 0xACFC, 0xD588, 0xC2B5, 0xB2C8, 0xB2E4] @ asc ''!''"

definition cart_empty :: ustr where
  "cart_empty = [0xC7A5, 0xBC14, 0xAD6C, 0xB2C8, 0xAC00] @ asc '' '' @ [0xBE44, 0xC5B4] @ asc '' '' @ [0xC788, 0xC2B5, 0xB2C8, 0xB2E4] @ asc ''.''"

definition w_cart_empty :: ustr where
  "w_cart_empty = [0xC7A5, 0xBC14, 0xAD6C, 0xB2C8, 0xC5D0] @ asc '' '' @ [0xBB3C, 0xD488, 0xC744] @ asc '' '' @ [0xD55C] @ asc '' '' @ [0xAC1C] @ asc '' '' @ [0xC774, 0xC0C1] @ asc '' '' @ [0xB2F4, 0xC544, 0xC8FC, 0xC138, 0xC694] @ asc ''.''"

definition w_result_guard :: ustr where
  "w_result_guard = [0xBA3C, 0xC800] @ asc '' '' @ [0xBBF8, 0xC158, 0xC744] @ asc '' '' @ [0xC120, 0xD0DD, 0xD558, 0xACE0] @ asc '' '' @ [0xC1FC, 0xD551, 0xC744] @ asc '' '' @ [0xC644, 0xB8CC, 0xD574, 0xC8FC, 0xC138, 0xC694] @ asc ''.''"

definition res_mission :: ustr where
  "res_mission = asc ''**'' @ [0xBBF8, 0xC158] @ asc '':** ''"

definition none_bought :: ustr where
  "none_bought = [0xAD6C, 0xB9E4, 0xD55C] @ asc '' '' @ [0xBB3C, 0xD488, 0xC774] @ asc '' '' @ [0xC5C6, 0xC2B5, 0xB2C8, 0xB2E4] @ asc ''.''"

definition w_reason :: ustr where
  "w_reason = [0xAD6C, 0xB9E4] @ asc '' '' @ [0xC774, 0xC720, 0xB97C] @ asc '' '' @ [0xC785, 0xB825, 0xD574, 0xC8FC, 0xC138, 0xC694] @ asc ''.''"

definition submitted :: ustr where
  "submitted = [0xC81C, 0xCD9C, 0xC774] @ asc '' '' @ [0xC644, 0xB8CC, 0xB418, 0xC5C8, 0xC2B5, 0xB2C8, 0xB2E4] @ asc ''! '' @ [0xC544, 0xB798] @ asc '' '' @ [0xBC84, 0xD2BC, 0xC744] @ asc '' '' @ [0xB20C, 0xB7EC] @ asc '' PNG'' @ [0xB97C] @ asc '' '' @ [0xB2E4, 0xC6B4, 0xB85C, 0xB4DC, 0xD558, 0xC138, 0xC694] @ asc ''.''"

section \<open>Missions\<close>

definition mission_1 :: ustr where
  "mission_1 = [0xC808, 0xC57D, 0xD615] @ asc '' '' @ [0xC7A5, 0xBCF4, 0xAE30] @ asc '' ('' @ [0xC608, 0xC0B0] @ asc '' 10,000'' @ [0xC6D0] @ asc '')''"

definition mission_2 :: ustr where
  "mission_2 = [0xADE0, 0xD615] @ asc '' '' @ [0xC7A1, 0xD78C] @ asc '' '' @ [0xC7A5, 0xBCF4, 0xAE30] @ asc '' ('' @ [0xC608, 0xC0B0] @ asc '' 20,000'' @ [0xC6D0] @ asc '')''"

definition mission_3 :: ustr where
  "mission_3 = [0xD48D, 0xC131, 0xD55C] @ asc '' '' @ [0xC7A5, 0xBCF4, 0xAE30] @ asc '' ('' @ [0xC608, 0xC0B0] @ asc '' 30,000'' @ [0xC6D0] @ asc '')''"

text \<open>The table \<open>MISSIONS\<close> (lines 38-42), in the order of the dictionary.\<close>

definition MISSIONS :: "(ustr \<times> int) list" where
  "MISSIONS = [(mission_1, 10000), (mission_2, 20000), (mission_3, 30000)]"

definition mission_intro :: ustr where
  "mission_intro = [0xD559, 0xC0DD, 0xC740] @ asc '' '' @ [0xC544, 0xB798] @ asc '' '' @ [0xC138] @ asc '' '' @ [0xAC00, 0xC9C0] @ asc '' '' @ [0xBBF8, 0xC158] @ asc '' '' @ [0xC911] @ asc '' '' @ [0xD558, 0xB098, 0xB97C] @ asc '' '' @ [0xC120, 0xD0DD, 0xD558, 0xC5EC] @ asc '' '' @ [0xC7A5, 0xBCF4, 0xAE30, 0xB97C] @ asc '' '' @ [0xC9C4, 0xD589, 0xD569, 0xB2C8, 0xB2E4] @ asc ''.''"

definition mission_info :: "ustr \<Rightarrow> int \<Rightarrow> ustr" where
  "mission_info m b =
     [0xC120, 0xD0DD, 0xD55C] @ asc '' '' @ [0xBBF8, 0xC158] @ asc '': **'' @ m @ asc ''**  '' @
     [0x0A, 0xC608, 0xC0B0] @ asc '': **'' @ fmt_comma b @ l_won @ asc ''**''"

section \<open>Utility functions\<close>

text \<open>\<open>load_products\<close> (lines 49-63): the frame read, or a notice and an empty frame
  when the file is missing; any other exception of \<open>pd.read_csv\<close> is not caught.\<close>

definition load_products :: "world \<Rightarrow> exn + ui list \<times> dataframe" where
  "load_products w =
     (case products_csv w of
        Inl e \<Rightarrow> if e = FileNotFoundError then Inr ([Error file_missing], empty_frame) else Inl e
      | Inr df \<Rightarrow> Inr ([], df))"

text \<open>\<open>get_column_name\<close> (lines 66-76): the Korean or the English name of a column,
  whichever the frame has. \<open>Inl m\<close> stands for \<open>st.error(m)\<close> followed by \<open>st.stop()\<close>.\<close>

definition column_error :: "ustr \<Rightarrow> ustr \<Rightarrow> ustr \<Rightarrow> ustr" where
  "column_error kor eng label = col_a @ kor @ col_b @ eng @ col_c @ label @ col_d"

definition get_column_name :: "dataframe \<Rightarrow> ustr \<Rightarrow> ustr \<Rightarrow> ustr \<Rightarrow> ustr + ustr" where
  "get_column_name df kor eng label =
     (if kor \<in> set (columns df) then Inr kor
      else if eng \<in> set (columns df) then Inr eng
      else Inl (column_error kor eng label))"

text \<open>\<open>add_to_cart\<close> (lines 79-82) appends one entry, its price converted by \<open>float\<close>.\<close>

definition add_to_cart :: "session \<Rightarrow> cell \<Rightarrow> pynum \<Rightarrow> cell option \<Rightarrow> exn + session" where
  "add_to_cart s n p img =
     (case py_float p of
        Inl e \<Rightarrow> Inl e
      | Inr f \<Rightarrow> Inr (s\<lparr>cart := cart s @ [\<lparr>name = n, price = f, image_url = img\<rparr>]\<rparr>))"

text \<open>\<open>calc_cart_total\<close> (lines 85-86).\<close>

definition calc_cart_total :: "world \<Rightarrow> session \<Rightarrow> pynum" where
  "calc_cart_total w s = py_sum (python w) (map price (cart s))"

subsection \<open>The submission image\<close>

text \<open>The lines of the image (lines 98-118): one per cart entry, and the reason split
  at line feeds, each paragraph wrapped at 30 and a blank paragraph kept as an empty
  line.\<close>

definition item_line :: "world \<Rightarrow> cell \<Rightarrow> int \<Rightarrow> ustr" where
  "item_line w nm n = asc ''- '' @ py_str w nm @ asc '' ('' @ fmt_comma n @ l_won @ asc '')''"

fun item_lines :: "world \<Rightarrow> item list \<Rightarrow> exn + ustr list" where
  "item_lines w [] = Inr []"
| "item_lines w (it # its) =
     (case py_int (PyFloat (price it)) of
        Inl e \<Rightarrow> Inl e
      | Inr n \<Rightarrow>
          (case item_lines w its of
             Inl e \<Rightarrow> Inl e
           | Inr ls \<Rightarrow> Inr (item_line w (name it) n # ls)))"

definition wrap_width :: nat where
  "wrap_width = 30"

definition reason_lines :: "world \<Rightarrow> ustr \<Rightarrow> ustr list" where
  "reason_lines w txt =
     concat (map (\<lambda>para. if strip para = [] then [[]] else wrap w para wrap_width)
                 (split_nl txt))"

definition submission_lines :: "world \<Rightarrow> ustr \<Rightarrow> pynum \<Rightarrow> item list \<Rightarrow> ustr \<Rightarrow> exn + ustr list" where
  "submission_lines w m b crt txt =
     (case py_int b of
        Inl e \<Rightarrow> Inl e
      | Inr n \<Rightarrow>
          (case (if crt \<noteq> [] then item_lines w crt else Inr [l_noitems]) of
             Inl e \<Rightarrow> Inl e
           | Inr its \<Rightarrow>
               Inr ([l_mission @ m, l_budget @ fmt_comma n @ l_won, [], l_items] @ its @
                    [[], l_reason] @ reason_lines w txt)))"

text \<open>\<open>create_submission_png\<close> (lines 89-144): the lines drawn from the margin down,
  one line height apart, on an image as high as the lines need, saved under a name made
  from the clock (the path as \<open>os.path.join\<close> builds it on a POSIX system). The file
  system is taken to accept the write.\<close>

definition submission_name :: "world \<Rightarrow> ustr" where
  "submission_name w = asc ''submission_'' @ now w @ asc ''.png''"

definition create_submission_png :: "world \<Rightarrow> ustr \<Rightarrow> pynum \<Rightarrow> item list \<Rightarrow> ustr \<Rightarrow> exn + png" where
  "create_submission_png w m b crt txt =
     (case submission_lines w m b crt txt of
        Inl e \<Rightarrow> Inl e
      | Inr ls \<Rightarrow>
          Inr \<lparr>path = asc ''submissions/'' @ submission_name w,
               width = 800,
               height = 40 * 2 + 30 * (length ls + 3),
               drawn = map (\<lambda>(i, l). (40, 40 + 30 * i, l)) (enumerate 0 ls)\<rparr>)"

section \<open>Screen 1: choosing the mission\<close>

text \<open>
  \<open>show_mission_page\<close> (lines 150-169): the introduction, the radio, the selected
  mission with its budget, and the confirm button. The radio offers the keys of
  \<open>MISSIONS\<close> and returns the one selected; \<open>MISSIONS[mission]\<close> raises \<open>KeyError\<close>
  on any other value.
\<close>

definition show_mission_page :: "session \<Rightarrow> action \<Rightarrow> outcome" where
  "show_mission_page s a =
     (case map_of MISSIONS (radio a) of
        None \<Rightarrow> \<lparr>state = s, shown = [Write mission_intro], saved = [], ended = Raised KeyError\<rparr>
      | Some b \<Rightarrow>
          \<lparr>state = (if clicked a = MissionConfirm
                    then s\<lparr>mission := Some (radio a), budget := b, page := ''shop''\<rparr>
                    else s),
           shown = [Write mission_intro, Info (mission_info (radio a) b)],
           saved = [],
           ended = Finished\<rparr>)"

section \<open>Screen 2: shopping\<close>

text \<open>The price of a row (lines 221-224): \<open>float\<close> of the value, 0 when that raises
  \<open>ValueError\<close>; any other exception goes on.\<close>

definition price_value_of :: "world \<Rightarrow> cell \<Rightarrow> exn + pynum" where
  "price_value_of w c =
     (case float_of_cell w c of
        Inr f \<Rightarrow> Inr (PyFloat f)
      | Inl e \<Rightarrow> if e = ValueError then Inr (PyInt 0) else Inl e)"

text \<open>One row of the product list (lines 206-234): its image or a placeholder, its
  name, its price, and the button that puts it into the cart.\<close>

definition row_image :: "world \<Rightarrow> ustr option \<Rightarrow> row \<Rightarrow> ui list" where
  "row_image w image_col r =
     (case image_col of
        None \<Rightarrow> [Write img_none]
      | Some ic \<Rightarrow>
          if notna (r ic)
          then (if image_ok w (r ic) then [Image (r ic)] else [Write img_fail])
          else [Write img_none])"

definition shop_row ::
  "world \<Rightarrow> ustr \<Rightarrow> ustr \<Rightarrow> ustr option \<Rightarrow> click \<Rightarrow> nat \<Rightarrow> row \<Rightarrow> session \<Rightarrow> outcome" where
  "shop_row w name_col price_col image_col c idx r s =
     (let out = row_image w image_col r @ [Markdown (asc ''**'' @ py_str w (r name_col) @ asc ''**'')]
      in case price_value_of w (r price_col) of
           Inl e \<Rightarrow> \<lparr>state = s, shown = out, saved = [], ended = Raised e\<rparr>
         | Inr price_value \<Rightarrow>
             (case py_int price_value of
                Inl e \<Rightarrow> \<lparr>state = s, shown = out, saved = [], ended = Raised e\<rparr>
              | Inr n \<Rightarrow>
                  (let out' = out @ [Write (price_lbl @ fmt_comma n @ l_won)]
                   in if c = Add idx
                      then (case add_to_cart s (r name_col) price_value
                                   (case image_col of None \<Rightarrow> None | Some ic \<Rightarrow> Some (r ic)) of
                              Inl e \<Rightarrow> \<lparr>state = s, shown = out', saved = [], ended = Raised e\<rparr>
                            | Inr s' \<Rightarrow>
                                \<lparr>state = s',
                                 shown = out' @ [Success (added_a @ py_str w (r name_col) @ added_b)],
                                 saved = [], ended = Finished\<rparr>)
                      else \<lparr>state = s, shown = out', saved = [], ended = Finished\<rparr>)))"

text \<open>The loop over the rows (line 205); an exception in a row ends the run there.\<close>

fun shop_rows ::
  "world \<Rightarrow> ustr \<Rightarrow> ustr \<Rightarrow> ustr option \<Rightarrow> click \<Rightarrow> nat \<Rightarrow> row list \<Rightarrow> session \<Rightarrow> outcome" where
  "shop_rows w name_col price_col image_col c idx [] s =
     \<lparr>state = s, shown = [], saved = [], ended = Finished\<rparr>"
| "shop_rows w name_col price_col image_col c idx (r # rs) s =
     (let one = shop_row w name_col price_col image_col c idx r s
      in if ended one = Finished
         then (let rest = shop_rows w name_col price_col image_col c (Suc idx) rs (state one)
               in rest\<lparr>shown := shown one @ shown rest\<rparr>)
         else one)"

text \<open>The summary of the cart on the shopping screen (lines 240-257). The table casts
  the prices to integers, which raises on a price that is not finite.\<close>

definition remaining_message :: "pynum \<Rightarrow> exn + ui" where
  "remaining_message remaining =
     (if py_ge0 remaining
      then (case py_int remaining of
              Inl e \<Rightarrow> Inl e
            | Inr n \<Rightarrow> Inr (Success (remaining_lbl @ fmt_comma n @ l_won)))
      else (case py_int (py_neg remaining) of
              Inl e \<Rightarrow> Inl e
            | Inr n \<Rightarrow> Inr (Error (over_a @ fmt_comma n @ over_b))))"

definition cart_table :: "session \<Rightarrow> exn + ui" where
  "cart_table s =
     (if list_all (\<lambda>it. is_finite (price it)) (cart s)
      then Inr (Dataframe (map (\<lambda>it. (name it, price it)) (cart s)))
      else Inl ValueError)"

definition shop_summary :: "world \<Rightarrow> session \<Rightarrow> ui list \<times> exn option" where
  "shop_summary w s =
     (let total = calc_cart_total w s
      in if cart s \<noteq> []
         then (case cart_table s of
                 Inl e \<Rightarrow> ([], Some e)
               | Inr table \<Rightarrow>
                   (case py_int total of
                      Inl e \<Rightarrow> ([table], Some e)
                    | Inr t \<Rightarrow>
                        (let out = [table, Write (total_lbl @ fmt_comma t @ l_won)]
                         in case py_sub (PyInt (budget s)) total of
                              Inl e \<Rightarrow> (out, Some e)
                            | Inr remaining \<Rightarrow>
                                (case remaining_message remaining of
                                   Inl e \<Rightarrow> (out, Some e)
                                 | Inr msg \<Rightarrow> (out @ [msg], None)))))
         else ([Write cart_empty], None))"

text \<open>
  \<open>show_shop_page\<close> (lines 175-269): the guard on the mission, the catalog and its
  columns, the rows, the summary and the two buttons at the bottom.
\<close>

definition image_column :: "dataframe \<Rightarrow> ustr option" where
  "image_column df =
     (if img1 \<in> set (columns df) then Some img1
      else if img2 \<in> set (columns df) then Some img2
      else if asc ''image_url'' \<in> set (columns df) then Some (asc ''image_url'')
      else None)"

definition shop_buttons :: "click \<Rightarrow> session \<Rightarrow> session \<times> ui list" where
  "shop_buttons c s =
     (if c = ShopBack then (s\<lparr>page := ''mission''\<rparr>, [])
      else if c = Buy
      then (if cart s = [] then (s, [Warning w_cart_empty]) else (s\<lparr>page := ''result''\<rparr>, []))
      else (s, []))"

definition show_shop_page :: "world \<Rightarrow> session \<Rightarrow> action \<Rightarrow> outcome" where
  "show_shop_page w s a =
     (case mission s of
        None \<Rightarrow>
          \<lparr>state = (if clicked a = ShopGuardBack then s\<lparr>page := ''mission''\<rparr> else s),
           shown = [Warning w_shop_guard], saved = [], ended = Finished\<rparr>
      | Some m \<Rightarrow>
          (let top = [Write (cur_mission @ m), Write (cur_budget @ fmt_comma (budget s) @ l_won)]
           in case load_products w of
                Inl e \<Rightarrow> \<lparr>state = s, shown = top, saved = [], ended = Raised e\<rparr>
              | Inr (notice, df) \<Rightarrow>
                  (let head = top @ notice
                   in if df_empty df
                      then \<lparr>state = s, shown = head, saved = [], ended = Finished\<rparr>
                      else (case get_column_name df kor_name (asc ''name'') kor_name_label of
                              Inl msg \<Rightarrow>
                                \<lparr>state = s, shown = head @ [Error msg], saved = [], ended = Stopped\<rparr>
                            | Inr name_col \<Rightarrow>
                                (case get_column_name df kor_price (asc ''price'') kor_price of
                                   Inl msg \<Rightarrow>
                                     \<lparr>state = s, shown = head @ [Error msg], saved = [],
                                      ended = Stopped\<rparr>
                                 | Inr price_col \<Rightarrow>
                                     (let listed = shop_rows w name_col price_col (image_column df)
                                                     (clicked a) 0 (rows df) s
                                      in if ended listed \<noteq> Finished
                                         then listed\<lparr>shown := head @ shown listed\<rparr>
                                         else (case shop_summary w (state listed) of
                                                 (out, Some e) \<Rightarrow>
                                                   \<lparr>state = state listed,
                                                    shown = head @ shown listed @ out,
                                                    saved = [], ended = Raised e\<rparr>
                                               | (out, None) \<Rightarrow>
                                                   \<lparr>state = fst (shop_buttons (clicked a) (state listed)),
                                                    shown = head @ shown listed @ out
                                                            @ snd (shop_buttons (clicked a)
                                                                     (state listed)),
                                                    saved = [], ended = Finished\<rparr>)))))))"

section \<open>Screen 3: the result\<close>

text \<open>The summary of the cart on the result screen (lines 288-306): the remaining
  budget is computed before anything is shown.\<close>

definition result_summary :: "world \<Rightarrow> session \<Rightarrow> ui list \<times> exn option" where
  "result_summary w s =
     (let total = calc_cart_total w s
      in case py_sub (PyInt (budget s)) total of
           Inl e \<Rightarrow> ([], Some e)
         | Inr remaining \<Rightarrow>
             if cart s \<noteq> []
             then (case cart_table s of
                     Inl e \<Rightarrow> ([], Some e)
                   | Inr table \<Rightarrow>
                       (case py_int total of
                          Inl e \<Rightarrow> ([table], Some e)
                        | Inr t \<Rightarrow>
                            (let out = [table, Write (total_lbl @ fmt_comma t @ l_won)]
                             in case remaining_message remaining of
                                  Inl e \<Rightarrow> (out, Some e)
                                | Inr msg \<Rightarrow> (out @ [msg], None))))
             else ([Write none_bought], None))"

text \<open>
  \<open>show_result_page\<close> (lines 275-340). The text area's content is stored as the
  reason before the buttons are read; a submission with a reason that is blank after
  \<open>strip\<close> is refused, any other is rendered and offered for download.
\<close>

definition show_result_page :: "world \<Rightarrow> session \<Rightarrow> action \<Rightarrow> outcome" where
  "show_result_page w s a =
     (case mission s of
        None \<Rightarrow>
          \<lparr>state = (if clicked a = ResultGuardBack then s\<lparr>page := ''mission''\<rparr> else s),
           shown = [Warning w_result_guard], saved = [], ended = Finished\<rparr>
      | Some m \<Rightarrow>
          (let head = [Write (res_mission @ m), Write (cur_budget @ fmt_comma (budget s) @ l_won)]
           in case result_summary w s of
                (out, Some e) \<Rightarrow> \<lparr>state = s, shown = head @ out, saved = [], ended = Raised e\<rparr>
              | (out, None) \<Rightarrow>
                  (let s1 = s\<lparr>reason := typed a\<rparr>
                   in if clicked a = ResultBack
                      then \<lparr>state = s1\<lparr>page := ''shop''\<rparr>, shown = head @ out, saved = [],
                            ended = Finished\<rparr>
                      else if clicked a = Submit
                      then (if strip (reason s1) = []
                            then \<lparr>state = s1, shown = head @ out @ [Warning w_reason], saved = [],
                                  ended = Finished\<rparr>
                            else (case create_submission_png w m (PyInt (budget s1)) (cart s1)
                                         (reason s1) of
                                    Inl e \<Rightarrow>
                                      \<lparr>state = s1, shown = head @ out, saved = [], ended = Raised e\<rparr>
                                  | Inr f \<Rightarrow>
                                      \<lparr>state = s1,
                                       shown = head @ out
                                               @ [Success submitted, Download_button (submission_name w)],
                                       saved = [f], ended = Finished\<rparr>))
                      else \<lparr>state = s1, shown = head @ out, saved = [], ended = Finished\<rparr>)))"

section \<open>The script\<close>

text \<open>\<open>main\<close> (lines 346-355) shows the screen the session is on; any other value of
  \<open>page\<close> is reset to the mission screen.\<close>

definition main :: "world \<Rightarrow> session \<Rightarrow> action \<Rightarrow> outcome" where
  "main w s a =
     (if page s = ''mission'' then show_mission_page s a
      else if page s = ''shop'' then show_shop_page w s a
      else if page s = ''result'' then show_result_page w s a
      else show_mission_page (s\<lparr>page := ''mission''\<rparr>) a)"

text \<open>The states a session can be in: the initial one, and the one each run leaves.\<close>

inductive reachable :: "session \<Rightarrow> bool" where
  start: "reachable initial_session"
| run: "reachable s \<Longrightarrow> reachable (state (main w s a))"

section \<open>Notions of the specification\<close>

text \<open>The number a finite float denotes, whether it is a whole number, and the exact
  (arithmetic) sum of the prices of a cart.\<close>

fun fval :: "pyfloat \<Rightarrow> real" where
  "fval (Fin r) = r"
| "fval _ = 0"

fun is_whole :: "pyfloat \<Rightarrow> bool" where
  "is_whole (Fin r) = (r = of_int \<lfloor>r\<rfloor>)"
| "is_whole _ = False"

definition exact_total :: "item list \<Rightarrow> real" where
  "exact_total crt = (\<Sum>it\<leftarrow>crt. fval (price it))"

text \<open>A sequence of \<open>add_to_cart\<close> calls, each with its name, price and image.\<close>

fun add_items :: "session \<Rightarrow> (cell \<times> pynum \<times> cell option) list \<Rightarrow> exn + session" where
  "add_items s [] = Inr s"
| "add_items s ((n, p, img) # rest) =
     (case add_to_cart s n p img of Inl e \<Rightarrow> Inl e | Inr s' \<Rightarrow> add_items s' rest)"

section \<open>Example data\<close>

text \<open>
  A catalog with the header \<open>name,price,image_url\<close>, two priced rows and one row
  whose price is the text \<open>abc\<close>; the image cells are empty. The example world knows
  Python's \<open>float\<close> of the two texts used below (\<open>1500.9\<close> is a number, \<open>abc\<close>
  is not) and wraps a paragraph shorter than the width, which \<open>textwrap.wrap\<close> returns
  whole.
\<close>

definition product :: "ustr \<Rightarrow> cell \<Rightarrow> row" where
  "product n p col =
     (if col = asc ''name'' then CStr n else if col = asc ''price'' then p else CFloat NaN)"

definition sample_catalog :: dataframe where
  "sample_catalog =
     \<lparr>columns = [asc ''name'', asc ''price'', asc ''image_url''],
      rows = [product (asc ''Apple'') (CInt 1500), product (asc ''Milk'') (CInt 2500),
              product (asc ''Pear'') (CStr (asc ''abc''))]\<rparr>"

definition sample_world :: world where
  "sample_world =
     \<lparr>products_csv = Inr sample_catalog,
      float_of_str = (\<lambda>t. if t = asc ''1500.9'' then Some (Fin (3300514004257997 / 2199023255552))
                           else None),
      str_float = (\<lambda>f. asc ''nan''),
      image_ok = (\<lambda>c. True),
      wrap = (\<lambda>para n. [para]),
      now = asc ''20240101_120000'',
      python = From_3_12\<rparr>"

definition shopping :: session where
  "shopping = \<lparr>page = ''shop'', mission = Some mission_1, budget = 10000, cart = [], reason = []\<rparr>"

definition apple :: item where
  "apple = \<lparr>name = CStr (asc ''Apple''), price = Fin 1500, image_url = Some (CFloat NaN)\<rparr>"

definition milk :: item where
  "milk = \<lparr>name = CStr (asc ''Milk''), price = Fin 2500, image_url = Some (CFloat NaN)\<rparr>"

text \<open>Four prices that are doubles: \<open>2^53\<close>, 1 and twice \<open>2^-53\<close>.\<close>

definition odd_cart :: "item list" where
  "odd_cart =
     map (\<lambda>p. \<lparr>name = CStr (asc ''x''), price = Fin p, image_url = None\<rparr>)
         [2 ^ 53, 1, 1 / 2 ^ 53, 1 / 2 ^ 53]"

text \<open>A catalog whose price column is spelled \<open>cost\<close>.\<close>

definition costed_catalog :: dataframe where
  "costed_catalog =
     \<lparr>columns = [asc ''name'', asc ''cost''], rows = [product (asc ''Apple'') (CInt 1500)]\<rparr>"

text \<open>A catalog with the header \<open>name,cost\<close> and no row, and one whose only row has an
  empty price cell.\<close>

definition header_only_catalog :: dataframe where
  "header_only_catalog = \<lparr>columns = [asc ''name'', asc ''cost''], rows = []\<rparr>"

definition blank_price_catalog :: dataframe where
  "blank_price_catalog =
     \<lparr>columns = [asc ''name'', asc ''price''], rows = [product (asc ''Apple'') (CFloat NaN)]\<rparr>"

text \<open>A session on the result screen whose justification is a space and a line feed.\<close>

definition reviewing :: session where
  "reviewing =
     \<lparr>page = ''result'', mission = Some mission_1, budget = 10000, cart = [apple],
      reason = [0x20, 0x0A]\<rparr>"

definition press :: "click \<Rightarrow> action" where
  "press c = \<lparr>clicked = c, radio = mission_1, typed = []\<rparr>"

declare digits.simps [simp del] group3.simps [simp del]

section \<open>Rounding: the exponent and exact cases\<close>

lemma halvings_bounds: "1 \<le> x \<Longrightarrow> 2 ^ halvings x \<le> x \<and> x < 2 ^ Suc (halvings x)"
proof (induction x rule: halvings.induct)
  case (1 x)
  show ?case
  proof (cases "x < 2")
    case True
    with "1.prems" show ?thesis by (simp add: halvings.simps)
  next
    case False
    then have "1 \<le> x / 2" by simp
    with "1.IH" False have "2 ^ halvings (x / 2) \<le> x / 2 \<and> x / 2 < 2 ^ Suc (halvings (x / 2))"
      by blast
    moreover have "halvings x = Suc (halvings (x / 2))"
      using False by (subst halvings.simps) simp
    ultimately show ?thesis by simp
  qed
qed

lemma doublings_bounds: "0 < x \<Longrightarrow> x < 1 \<Longrightarrow> 1 \<le> 2 ^ doublings x * x \<and> 2 ^ doublings x * x < 2"
proof (induction x rule: doublings.induct)
  case (1 x)
  from "1.prems" have step: "doublings x = Suc (doublings (2 * x))"
    by (subst doublings.simps) simp
  show ?case
  proof (cases "2 * x < 1")
    case True
    with "1.IH" "1.prems" have "1 \<le> 2 ^ doublings (2 * x) * (2 * x) \<and> 2 ^ doublings (2 * x) * (2 * x) < 2"
      by simp
    with step show ?thesis by (simp add: mult.assoc)
  next
    case False
    then have "doublings (2 * x) = 0" by (subst doublings.simps) simp
    with step False "1.prems" show ?thesis by simp
  qed
qed

lemma ilog2_bounds:
  assumes "x \<noteq> 0"
  shows "2 powi ilog2 x \<le> \<bar>x\<bar> \<and> \<bar>x\<bar> < 2 powi (ilog2 x + 1)"
proof (cases "1 \<le> \<bar>x\<bar>")
  case True
  define h where "h = halvings \<bar>x\<bar>"
  have e: "ilog2 x = int h" using True by (simp add: ilog2_def h_def)
  have e1: "int h + 1 = int (Suc h)" by simp
  have b: "2 ^ h \<le> \<bar>x\<bar> \<and> \<bar>x\<bar> < 2 ^ Suc h"
    unfolding h_def by (rule halvings_bounds [OF True])
  have p: "(2::real) powi ilog2 x = 2 ^ h"
    unfolding e by (rule power_int_of_nat)
  have p1: "(2::real) powi (ilog2 x + 1) = 2 ^ Suc h"
    unfolding e e1 by (rule power_int_of_nat)
  show ?thesis unfolding p p1 by (rule b)
next
  case False
  with assms have x: "0 < \<bar>x\<bar>" "\<bar>x\<bar> < 1" by simp_all
  define d where "d = doublings \<bar>x\<bar>"
  have e: "ilog2 x = - int d" using False by (simp add: ilog2_def d_def)
  from doublings_bounds [OF x] have b: "1 \<le> 2 ^ d * \<bar>x\<bar>" "2 ^ d * \<bar>x\<bar> < 2"
    by (simp_all add: d_def)
  have p: "(2::real) powi (- int d) = 1 / 2 ^ d"
    by (simp add: power_int_minus_divide)
  have "(2::real) powi (- int d + 1) = 2 powi (- int d) * 2"
    by (rule power_int_add_1) simp
  then have p1: "(2::real) powi (- int d + 1) = 2 / 2 ^ d"
    unfolding p by simp
  from b show ?thesis
    unfolding e p p1 by (simp add: field_simps)
qed

lemma ilog2_unique:
  assumes "2 powi e \<le> \<bar>x\<bar>" and "\<bar>x\<bar> < 2 powi (e + 1)"
  shows "ilog2 x = e"
proof -
  have "(0::real) < 2 powi e" by simp
  have "x \<noteq> 0"
  proof
    assume "x = 0"
    with assms(1) have "(2::real) powi e \<le> 0" by simp
    with \<open>0 < 2 powi e\<close> show False by linarith
  qed
  from ilog2_bounds [OF this] have b: "2 powi ilog2 x \<le> \<bar>x\<bar>" "\<bar>x\<bar> < 2 powi (ilog2 x + 1)"
    by simp_all
  have "e < ilog2 x + 1"
  proof (rule ccontr)
    assume "\<not> e < ilog2 x + 1"
    then have "ilog2 x + 1 \<le> e" by simp
    then have "(2::real) powi (ilog2 x + 1) \<le> 2 powi e"
      by (rule power_int_increasing) simp
    with assms(1) b(2) show False by linarith
  qed
  moreover have "ilog2 x < e + 1"
  proof (rule ccontr)
    assume "\<not> ilog2 x < e + 1"
    then have "e + 1 \<le> ilog2 x" by simp
    then have "(2::real) powi (e + 1) \<le> 2 powi ilog2 x"
      by (rule power_int_increasing) simp
    with assms(2) b(1) show False by linarith
  qed
  ultimately show ?thesis by simp
qed

lemma round_half_even_of_int: "round_half_even (of_int k) = k"
  by (simp add: round_half_even_def)

lemma round_double_of_int:
  assumes "\<bar>n\<bar> \<le> 2 ^ 53"
  shows "round_double (of_int n) = Fin (of_int n)"
proof (cases "n = 0")
  case True
  then show ?thesis by (simp add: round_double_def)
next
  case False
  define x :: real where "x = of_int n"
  define e where "e = ilog2 x"
  define q where "q = max (e - 52) (- 1074)"
  have x0: "x \<noteq> 0" using False by (simp add: x_def)
  have lo: "1 \<le> \<bar>x\<bar>" using False by (simp add: x_def flip: of_int_abs)
  have "\<bar>x\<bar> = of_int \<bar>n\<bar>" by (simp add: x_def)
  also have "\<dots> \<le> of_int (2 ^ 53)" using assms by (simp only: of_int_le_iff)
  finally have hi: "\<bar>x\<bar> \<le> 2 ^ 53" by simp
  from ilog2_bounds [OF x0] have b: "2 powi e \<le> \<bar>x\<bar>" "\<bar>x\<bar> < 2 powi (e + 1)"
    by (simp_all add: e_def)
  have e0: "0 \<le> e"
  proof (rule ccontr)
    assume "\<not> 0 \<le> e"
    then have "e + 1 \<le> 0" by simp
    then have "(2::real) powi (e + 1) \<le> 2 powi 0" by (rule power_int_increasing) simp
    with b(2) lo show False by simp
  qed
  have e53: "e \<le> 53"
  proof (rule ccontr)
    assume "\<not> e \<le> 53"
    then have "54 \<le> e" by simp
    then have "(2::real) powi 54 \<le> 2 powi e" by (rule power_int_increasing) simp
    with b(1) hi show False by simp
  qed
  have q: "q = e - 52" using e0 by (simp add: q_def)
  have "\<exists>k. x / 2 powi q = of_int k"
  proof (cases "e \<le> 52")
    case True
    define m where "m = nat (52 - e)"
    have "q = - int m" using True by (simp add: q m_def)
    then have "(2::real) powi q = 1 / 2 ^ m" by (simp add: power_int_minus_divide)
    then have "x / 2 powi q = of_int (n * 2 ^ m)" by (simp add: x_def)
    then show ?thesis ..
  next
    case False
    with e53 have e: "e = 53" by simp
    with b(1) hi have "\<bar>x\<bar> = 2 ^ 53" by simp
    then have "x = 2 ^ 53 \<or> x = - (2 ^ 53)" by (simp add: abs_if split: if_splits)
    moreover have "(2::real) powi q = 2" using e by (simp add: q)
    ultimately have "x / 2 powi q = of_int (2 ^ 52) \<or> x / 2 powi q = of_int (- (2 ^ 52))"
      by auto
    then show ?thesis by blast
  qed
  then obtain k where k: "x / 2 powi q = of_int k" ..
  have "of_int (round_half_even (x / 2 powi q)) * 2 powi q = x"
    unfolding k round_half_even_of_int using k [symmetric] by simp
  moreover have "\<not> 2 ^ 1024 \<le> \<bar>x\<bar>" using hi by simp
  ultimately show ?thesis
    using x0 unfolding round_double_def Let_def q_def [symmetric] e_def [symmetric] x_def [symmetric]
    by simp
qed

lemma fadd_whole:
  "\<bar>a + b\<bar> \<le> 2 ^ 53 \<Longrightarrow> fadd (Fin (of_int a)) (Fin (of_int b)) = Fin (of_int (a + b))"
  using round_double_of_int [of "a + b"] by simp

lemma fsub_whole:
  "\<bar>a - b\<bar> \<le> 2 ^ 53 \<Longrightarrow> fsub (Fin (of_int a)) (Fin (of_int b)) = Fin (of_int (a - b))"
  using round_double_of_int [of "a - b"] by (simp add: fsub_def)

lemma plain_loop_whole:
  "\<bar>k\<bar> + (\<Sum>n\<leftarrow>ns. \<bar>n\<bar>) \<le> 2 ^ 53 \<Longrightarrow>
   plain_loop (Fin (of_int k)) (map (\<lambda>n. Fin (of_int n)) ns) = Fin (of_int (k + sum_list ns))"
proof (induction ns arbitrary: k)
  case Nil
  then show ?case by simp
next
  case (Cons n ns)
  from Cons.prems have "\<bar>k + n\<bar> \<le> 2 ^ 53"
    using sum_list_abs [of ns] by simp
  then have step: "fadd (Fin (of_int k)) (Fin (of_int n)) = Fin (of_int (k + n))"
    by (rule fadd_whole)
  from Cons.prems have "\<bar>k + n\<bar> + (\<Sum>n\<leftarrow>ns. \<bar>n\<bar>) \<le> 2 ^ 53" by simp
  from Cons.IH [OF this] step show ?case by (simp add: add.assoc)
qed

lemma neumaier_loop_whole:
  "\<bar>k\<bar> + (\<Sum>n\<leftarrow>ns. \<bar>n\<bar>) \<le> 2 ^ 53 \<Longrightarrow>
   neumaier_loop (Fin (of_int k)) (Fin 0) (map (\<lambda>n. Fin (of_int n)) ns) =
   Fin (of_int (k + sum_list ns))"
proof (induction ns arbitrary: k)
  case Nil
  then show ?case by simp
next
  case (Cons n ns)
  have nonneg: "0 \<le> (\<Sum>n\<leftarrow>ns. \<bar>n\<bar>)" by (rule sum_list_nonneg) auto
  from Cons.prems nonneg have bounds: "\<bar>k + n\<bar> \<le> 2 ^ 53" "\<bar>k - (k + n)\<bar> \<le> 2 ^ 53"
    "\<bar>n - (k + n)\<bar> \<le> 2 ^ 53" "\<bar>- n + n\<bar> \<le> 2 ^ 53" "\<bar>- k + k\<bar> \<le> 2 ^ 53"
    by simp_all
  have t: "fadd (Fin (of_int k)) (Fin (of_int n)) = Fin (of_int (k + n))"
    using bounds(1) by (rule fadd_whole)
  have d1: "fsub (Fin (of_int k)) (Fin (of_int (k + n))) = Fin (of_int (- n))"
    using fsub_whole [OF bounds(2)] by simp
  have d2: "fsub (Fin (of_int n)) (Fin (of_int (k + n))) = Fin (of_int (- k))"
    using fsub_whole [OF bounds(3)] by simp
  have z1: "fadd (Fin (of_int (- n))) (Fin (of_int n)) = Fin 0"
    using fadd_whole [OF bounds(4)] by simp
  have z2: "fadd (Fin (of_int (- k))) (Fin (of_int k)) = Fin 0"
    using fadd_whole [OF bounds(5)] by simp
  have z: "fadd (Fin 0) (Fin 0) = Fin 0" by (simp add: round_double_def)
  from Cons.prems have "\<bar>k + n\<bar> + (\<Sum>n\<leftarrow>ns. \<bar>n\<bar>) \<le> 2 ^ 53" by simp
  from Cons.IH [OF this]
  have "neumaier_loop (Fin (of_int (k + n))) (Fin 0) (map (\<lambda>n. Fin (of_int n)) ns) =
        Fin (of_int (k + sum_list (n # ns)))"
    by (simp add: add.assoc)
  then show ?case
    by (simp only: list.map neumaier_loop.simps Let_def t d1 d2 z1 z2 z if_cancel)
qed

lemma py_sum_whole:
  assumes "(\<Sum>n\<leftarrow>ns. \<bar>n\<bar>) \<le> 2 ^ 53"
  shows "py_sum v (map (\<lambda>n. Fin (of_int n)) ns) =
           (if ns = [] then PyInt 0 else PyFloat (Fin (of_int (sum_list ns))))"
proof (cases ns)
  case Nil
  then show ?thesis by (simp add: py_sum_def)
next
  case (Cons k rest)
  with assms have "\<bar>k\<bar> + (\<Sum>n\<leftarrow>rest. \<bar>n\<bar>) \<le> 2 ^ 53" by simp
  from plain_loop_whole [OF this] neumaier_loop_whole [OF this] Cons show ?thesis
    by (cases v) (simp_all add: py_sum_def)
qed

lemmas rd = round_double_def round_half_even_def ilog2_def halvings.simps doublings.simps Let_def

lemma whole_price:
  assumes "is_whole p"
  shows "p = Fin (of_int \<lfloor>fval p\<rfloor>)"
  using assms by (cases p) simp_all

lemma whole_prices_map:
  "\<forall>it\<in>set crt. is_whole (price it) \<Longrightarrow>
   map price crt = map (\<lambda>n. Fin (of_int n)) (map (\<lambda>it. \<lfloor>fval (price it)\<rfloor>) crt)"
  by (induction crt) (simp_all add: whole_price)

lemma whole_prices_abs:
  "\<forall>it\<in>set crt. is_whole (price it) \<Longrightarrow>
   of_int (\<Sum>n\<leftarrow>map (\<lambda>it. \<lfloor>fval (price it)\<rfloor>) crt. \<bar>n\<bar>) = (\<Sum>it\<leftarrow>crt. \<bar>fval (price it)\<bar>)"
proof (induction crt)
  case Nil
  then show ?case by simp
next
  case (Cons it crt)
  from Cons.prems have "is_whole (price it)" by simp
  then have "fval (price it) = of_int \<lfloor>fval (price it)\<rfloor>"
    by (cases "price it") simp_all
  then have "\<bar>fval (price it)\<bar> = of_int \<bar>\<lfloor>fval (price it)\<rfloor>\<bar>"
    by (metis of_int_abs)
  with Cons show ?case by simp
qed

lemma whole_prices_sum:
  "\<forall>it\<in>set crt. is_whole (price it) \<Longrightarrow>
   of_int (sum_list (map (\<lambda>it. \<lfloor>fval (price it)\<rfloor>) crt)) = exact_total crt"
proof (induction crt)
  case Nil
  then show ?case by (simp add: exact_total_def)
next
  case (Cons it crt)
  from Cons.prems have "is_whole (price it)" by simp
  then have "fval (price it) = of_int \<lfloor>fval (price it)\<rfloor>"
    by (cases "price it") simp_all
  with Cons show ?case by (simp add: exact_total_def)
qed

lemma cart_total_whole:
  assumes "\<forall>it\<in>set (cart s). is_whole (price it)"
    and "(\<Sum>it\<leftarrow>cart s. \<bar>fval (price it)\<bar>) \<le> 2 ^ 53"
  shows "calc_cart_total w s =
           (if cart s = [] then PyInt 0 else PyFloat (Fin (exact_total (cart s))))"
proof -
  define ns where "ns = map (\<lambda>it. \<lfloor>fval (price it)\<rfloor>) (cart s)"
  have p: "map price (cart s) = map (\<lambda>n. Fin (of_int n)) ns"
    unfolding ns_def using assms(1) by (rule whole_prices_map)
  have "(of_int (\<Sum>n\<leftarrow>ns. \<bar>n\<bar>) :: real) \<le> 2 ^ 53"
    unfolding ns_def using whole_prices_abs [OF assms(1)] assms(2) by simp
  then have "(of_int (\<Sum>n\<leftarrow>ns. \<bar>n\<bar>) :: real) \<le> of_int (2 ^ 53)" by simp
  then have b: "(\<Sum>n\<leftarrow>ns. \<bar>n\<bar>) \<le> 2 ^ 53" by (simp only: of_int_le_iff)
  have e: "ns = [] \<longleftrightarrow> cart s = []" by (simp add: ns_def)
  have t: "of_int (sum_list ns) = exact_total (cart s)"
    unfolding ns_def using assms(1) by (rule whole_prices_sum)
  show ?thesis
    unfolding calc_cart_total_def p py_sum_whole [OF b] e t ..
qed

lemma exact_total_mset: "mset crt' = mset crt \<Longrightarrow> exact_total crt' = exact_total crt"
  unfolding exact_total_def by (metis mset_map sum_mset_sum_list)

lemma abs_total_mset:
  "mset crt' = mset crt \<Longrightarrow>
   (\<Sum>it\<leftarrow>crt'. \<bar>fval (price it)\<bar>) = (\<Sum>it\<leftarrow>crt. \<bar>fval (price it)\<bar>)"
  by (metis mset_map sum_mset_sum_list)

section \<open>Formatting and the lines of the image\<close>

lemma digits_ge_48: "c \<in> set (digits n) \<Longrightarrow> 0x30 \<le> c"
proof (induction n rule: digits.induct)
  case (1 n)
  then show ?case
    by (subst (asm) digits.simps) (auto simp add: digit_def split: if_splits)
qed

lemma digits_thousand:
  assumes "1000 \<le> n"
  shows "digits n = digits (n div 1000) @
           [digit (n div 100 mod 10), digit (n div 10 mod 10), digit (n mod 10)]"
proof -
  have a: "digits n = digits (n div 10) @ [digit (n mod 10)]"
    using assms by (subst digits.simps) simp
  have "\<not> n div 10 < 10" "\<not> n div 100 < 10" using assms by arith+
  moreover have "n div 10 div 10 = n div 100" "n div 100 div 10 = n div 1000"
    by (simp_all add: div_mult2_eq [symmetric])
  ultimately have b: "digits (n div 10) = digits (n div 100) @ [digit (n div 10 mod 10)]"
    and c: "digits (n div 100) = digits (n div 1000) @ [digit (n div 100 mod 10)]"
    using digits.simps [of "n div 10"] digits.simps [of "n div 100"] by simp_all
  show ?thesis by (simp add: a b c)
qed

lemma group3_without_commas: "filter (\<lambda>c. c \<noteq> 0x2C) (group3 n) = digits n"
proof (induction n rule: group3.induct)
  case (1 n)
  show ?case
  proof (cases "n < 1000")
    case True
    have "filter (\<lambda>c. c \<noteq> 0x2C) (digits n) = digits n"
      by (rule filter_True) (auto dest: digits_ge_48)
    with True show ?thesis by (subst group3.simps) simp
  next
    case False
    then have g: "group3 n = group3 (n div 1000) @
           [0x2C, digit (n div 100 mod 10), digit (n div 10 mod 10), digit (n mod 10)]"
      by (subst group3.simps) simp
    from False have ih: "filter (\<lambda>c. c \<noteq> 0x2C) (group3 (n div 1000)) = digits (n div 1000)"
      by (rule "1.IH")
    from False have "1000 \<le> n" by simp
    from digits_thousand [OF this] ih show ?thesis
      by (simp add: g digit_def)
  qed
qed

lemma fmt_comma_without_commas: "filter (\<lambda>c. c \<noteq> 0x2C) (fmt_comma n) = str_int n"
  by (simp add: fmt_comma_def str_int_def group3_without_commas)

lemma item_lines_finite:
  "\<forall>it\<in>set crt. is_finite (price it) \<Longrightarrow>
   item_lines w crt = Inr (map (\<lambda>it. item_line w (name it) (trunc (fval (price it)))) crt)"
proof (induction crt)
  case Nil
  then show ?case by simp
next
  case (Cons it crt)
  from Cons.prems obtain r where "price it = Fin r"
    by (cases "price it") simp_all
  with Cons show ?case by simp
qed

lemma submission_lines_eq:
  assumes "\<forall>it\<in>set crt. is_finite (price it)" and "py_int b = Inr n"
  shows "submission_lines w m b crt txt =
           Inr ([l_mission @ m, l_budget @ fmt_comma n @ l_won, [], l_items] @
                (if crt = [] then [l_noitems]
                 else map (\<lambda>it. item_line w (name it) (trunc (fval (price it)))) crt) @
                [[], l_reason] @
                concat (map (\<lambda>para. if strip para = [] then [[]] else wrap w para 30)
                            (split_nl txt)))"
  unfolding submission_lines_def reason_lines_def wrap_width_def
  using assms by (simp add: item_lines_finite)

lemma drawn_lines: "map (\<lambda>(i, l). l) (enumerate k ls) = ls"
  by (induction ls arbitrary: k) simp_all

lemma create_submission_png_lines:
  assumes "submission_lines w m b crt txt = Inr ls"
  shows "\<exists>f. create_submission_png w m b crt txt = Inr f \<and>
             map (\<lambda>(x, y, l). l) (drawn f) = ls \<and>
             height f = 80 + 30 * (length ls + 3)"
  using assms drawn_lines [of 0 ls]
  by (simp add: create_submission_png_def comp_def case_prod_unfold)

lemma fmt_examples: "fmt_comma 10000 = asc ''10,000''" "fmt_comma 1500 = asc ''1,500''"
  by (simp_all add: fmt_comma_def group3.simps digits.simps digit_def asc_def)

lemma strip_test: "strip (asc ''test'') \<noteq> []"
  by (simp add: strip_def asc_def py_isspace_def)

lemma split_test: "split_nl (asc ''test'') = [asc ''test'']"
  by (simp add: asc_def)

section \<open>What a run of the shopping and result screens keeps\<close>

lemma shop_row_other_click:
  "c \<noteq> Add idx \<Longrightarrow> state (shop_row w nc pc ic c idx r s) = s"
  by (simp add: shop_row_def Let_def split: sum.splits)

lemma shop_rows_other_click:
  "(\<And>i. c \<noteq> Add i) \<Longrightarrow> state (shop_rows w nc pc ic c idx rs s) = s"
proof (induction rs arbitrary: idx s)
  case Nil
  then show ?case by simp
next
  case (Cons r rs)
  from Cons.prems have one: "state (shop_row w nc pc ic c idx r s) = s"
    by (rule shop_row_other_click)
  show ?case
    using Cons.IH [OF Cons.prems, of "Suc idx" s] one by (simp add: Let_def)
qed

lemma shop_row_frame:
  "page (state (shop_row w nc pc ic c idx r s)) = page s \<and>
   mission (state (shop_row w nc pc ic c idx r s)) = mission s \<and>
   budget (state (shop_row w nc pc ic c idx r s)) = budget s \<and>
   reason (state (shop_row w nc pc ic c idx r s)) = reason s"
  by (simp add: shop_row_def add_to_cart_def Let_def split: sum.splits)

lemma shop_rows_frame:
  "page (state (shop_rows w nc pc ic c idx rs s)) = page s \<and>
   mission (state (shop_rows w nc pc ic c idx rs s)) = mission s \<and>
   budget (state (shop_rows w nc pc ic c idx rs s)) = budget s \<and>
   reason (state (shop_rows w nc pc ic c idx rs s)) = reason s"
proof (induction rs arbitrary: idx s)
  case Nil
  then show ?case by simp
next
  case (Cons r rs)
  show ?case
    using Cons.IH [of "Suc idx" "state (shop_row w nc pc ic c idx r s)"]
      shop_row_frame [of w nc pc ic c idx r s]
    by (simp add: Let_def)
qed

lemma shop_rows_saved: "saved (shop_rows w nc pc ic c idx rs s) = []"
proof (induction rs arbitrary: idx s)
  case Nil
  then show ?case by simp
next
  case (Cons r rs)
  have "saved (shop_row w nc pc ic c idx r s) = []"
    by (simp add: shop_row_def Let_def split: sum.splits)
  with Cons.IH [of "Suc idx" "state (shop_row w nc pc ic c idx r s)"] show ?case
    by (simp add: Let_def)
qed

lemma shop_buttons_frame:
  "mission (fst (shop_buttons c s)) = mission s \<and>
   budget (fst (shop_buttons c s)) = budget s \<and>
   cart (fst (shop_buttons c s)) = cart s \<and>
   reason (fst (shop_buttons c s)) = reason s"
  by (simp add: shop_buttons_def)


lemma show_shop_page_frame:
  "mission (state (show_shop_page w s a)) = mission s \<and>
   budget (state (show_shop_page w s a)) = budget s \<and>
   reason (state (show_shop_page w s a)) = reason s"
proof (cases "mission s")
  case None
  then show ?thesis by (simp add: show_shop_page_def)
next
  case (Some m)
  note fr = shop_rows_frame [of w _ _ _ "clicked a" 0 _ s]
  note bt = shop_buttons_frame [of "clicked a"]
  from Some show ?thesis
    by (simp add: show_shop_page_def Let_def fr bt split: sum.splits prod.splits option.splits)
qed

lemma show_shop_page_other_click:
  assumes "\<And>i. clicked a \<noteq> Add i"
  shows "cart (state (show_shop_page w s a)) = cart s"
proof (cases "mission s")
  case None
  then show ?thesis by (simp add: show_shop_page_def)
next
  case (Some m)
  note st = shop_rows_other_click [of "clicked a", OF assms]
  note bt = shop_buttons_frame [of "clicked a"]
  from Some show ?thesis
    by (simp add: show_shop_page_def Let_def st bt split: sum.splits prod.splits option.splits)
qed

lemma show_result_page_frame:
  "mission (state (show_result_page w s a)) = mission s \<and>
   budget (state (show_result_page w s a)) = budget s \<and>
   cart (state (show_result_page w s a)) = cart s"
  by (simp add: show_result_page_def Let_def split: sum.splits prod.splits option.splits)


lemma shop_row_cart_grows:
  "\<exists>its. cart (state (shop_row w nc pc ic c idx r s)) = cart s @ its"
  by (simp add: shop_row_def add_to_cart_def Let_def split: sum.splits)

lemma shop_rows_cart_grows:
  "\<exists>its. cart (state (shop_rows w nc pc ic c idx rs s)) = cart s @ its"
proof (induction rs arbitrary: idx s)
  case Nil
  then show ?case by simp
next
  case (Cons r rs)
  obtain xs where one: "cart (state (shop_row w nc pc ic c idx r s)) = cart s @ xs"
    using shop_row_cart_grows by blast
  obtain ys where rest:
    "cart (state (shop_rows w nc pc ic c (Suc idx) rs (state (shop_row w nc pc ic c idx r s)))) =
     cart (state (shop_row w nc pc ic c idx r s)) @ ys"
    using Cons.IH by blast
  show ?case
  proof (cases "ended (shop_row w nc pc ic c idx r s) = Finished")
    case True
    then have "cart (state (shop_rows w nc pc ic c idx (r # rs) s)) = cart s @ (xs @ ys)"
      using one rest by (simp add: Let_def)
    then show ?thesis by blast
  next
    case False
    then have "cart (state (shop_rows w nc pc ic c idx (r # rs) s)) = cart s @ xs"
      using one by (simp add: Let_def)
    then show ?thesis by blast
  qed
qed

lemma show_shop_page_cart_grows:
  "\<exists>its. cart (state (show_shop_page w s a)) = cart s @ its"
proof (cases "mission s")
  case None
  then show ?thesis by (simp add: show_shop_page_def)
next
  case (Some m)
  note bt = shop_buttons_frame [of "clicked a"]
  from Some shop_rows_cart_grows [of w _ _ _ "clicked a" 0 _ s] show ?thesis
    by (simp add: show_shop_page_def Let_def bt split: sum.splits prod.splits option.splits)
qed

lemma main_cart_grows: "\<exists>its. cart (state (main w s a)) = cart s @ its"
  using show_shop_page_cart_grows [of w s a] show_result_page_frame [of w s a]
  by (simp add: main_def show_mission_page_def split: option.splits)

lemma main_budget_fixed:
  assumes "budget (state (main w s a)) \<noteq> budget s"
  shows "clicked a = MissionConfirm \<and> page s \<noteq> ''shop'' \<and> page s \<noteq> ''result'' \<and>
         map_of MISSIONS (radio a) = Some (budget (state (main w s a)))"
  using assms show_shop_page_frame [of w s a] show_result_page_frame [of w s a]
  by (simp add: main_def show_mission_page_def split: option.splits if_splits)

lemma mission_amounts: "map_of MISSIONS l = Some b \<Longrightarrow> b \<in> {10000, 20000, 30000}"
  by (auto simp add: MISSIONS_def split: if_splits)

lemma reachable_budget: "reachable s \<Longrightarrow> budget s \<in> {0, 10000, 20000, 30000}"
proof (induction rule: reachable.induct)
  case start
  then show ?case by (simp add: initial_session_def)
next
  case (run s w a)
  show ?case
  proof (cases "budget (state (main w s a)) = budget s")
    case True
    with run.IH show ?thesis by simp
  next
    case False
    from main_budget_fixed [OF this] mission_amounts show ?thesis by blast
  qed
qed

section \<open>Evaluation on the example data\<close>

lemma fmt_comma_0: "fmt_comma 0 = asc ''0''"
  by (simp add: fmt_comma_def group3.simps digits.simps digit_def asc_def)

lemma float_of_int_0: "float_of_int 0 = Inr (Fin 0)"
  by (simp add: float_of_int_def round_double_def)

lemma row_image_no_error: "Error m \<notin> set (row_image w ic r)"
  by (simp add: row_image_def split: option.splits)

lemma float_of_int_small: "\<bar>n\<bar> \<le> 2 ^ 53 \<Longrightarrow> float_of_int n = Inr (Fin (of_int n))"
  by (simp add: float_of_int_def round_double_of_int)

lemma round_double_numeral:
  "numeral k \<le> (2::int) ^ 53 \<Longrightarrow> round_double (numeral k) = Fin (numeral k)"
  using round_double_of_int [of "numeral k"] by simp

lemma sample_columns:
  "get_column_name sample_catalog kor_name (asc ''name'') kor_name_label = Inr (asc ''name'')"
  "get_column_name sample_catalog kor_price (asc ''price'') kor_price = Inr (asc ''price'')"
  "image_column sample_catalog = Some (asc ''image_url'')"
  "\<not> df_empty sample_catalog"
  by (simp_all add: get_column_name_def image_column_def sample_catalog_def df_empty_def
      kor_name_def kor_price_def img1_def img2_def asc_def)

lemma sample_rows_ended:
  "ended (shop_rows sample_world (asc ''name'') (asc ''price'') ic c 0 (rows sample_catalog) s) =
   Finished"
  by (simp add: sample_catalog_def shop_row_def price_value_of_def product_def asc_def
      sample_world_def float_of_int_small float_of_int_0 trunc_def add_to_cart_def Let_def)

lemma shop_summary_empty: "cart s = [] \<Longrightarrow> shop_summary w s = ([Write cart_empty], None)"
  by (simp add: shop_summary_def)

lemma sample_page_ended:
  assumes "mission s \<noteq> None" and "cart s = []" and "\<And>i. clicked a \<noteq> Add i"
  shows "ended (show_shop_page sample_world s a) = Finished"
proof -
  from assms(1) obtain m where m: "mission s = Some m" by blast
  have ld: "load_products sample_world = Inr ([], sample_catalog)"
    by (simp add: load_products_def sample_world_def)
  have st: "\<And>nc pc ic rs. state (shop_rows sample_world nc pc ic (clicked a) 0 rs s) = s"
    by (rule shop_rows_other_click) (rule assms(3))
  show ?thesis
    by (simp add: show_shop_page_def m ld sample_columns sample_rows_ended st
        shop_summary_empty [OF assms(2)] Let_def)
qed

lemma mission_labels_distinct: "distinct (map fst MISSIONS)"
  by (simp add: MISSIONS_def mission_1_def mission_2_def mission_3_def asc_def)

section \<open>Mission selection\<close>

text \<open>
  C1. For every label of the mission table, confirming that mission on the mission screen
  sets the budget to the amount the table gives for the label, sets the selected mission
  to the label and sets the screen to shop; the cart and the justification are kept, and
  the run ends normally.
\<close>

theorem mission_confirm_sets_budget:
  assumes "(l, b) \<in> set MISSIONS" and "radio a = l" and "clicked a = MissionConfirm"
  shows "show_mission_page s a =
           \<lparr>state = s\<lparr>mission := Some l, budget := b, page := ''shop''\<rparr>,
            shown = [Write mission_intro, Info (mission_info l b)], saved = [],
            ended = Finished\<rparr> \<and>
         budget (state (show_mission_page s a)) = b \<and>
         mission (state (show_mission_page s a)) = Some l \<and>
         page (state (show_mission_page s a)) = ''shop'' \<and>
         cart (state (show_mission_page s a)) = cart s \<and>
         reason (state (show_mission_page s a)) = reason s \<and>
         (page s = ''mission'' \<longrightarrow> main w s a = show_mission_page s a)"
proof -
  from assms(1) have "map_of MISSIONS l = Some b"
    using mission_labels_distinct by simp
  with assms(2,3) show ?thesis
    by (simp add: show_mission_page_def main_def)
qed

theorem mission_confirm_sets_budget_witness:
  "(mission_2, 20000) \<in> set MISSIONS \<and>
   page initial_session = ''mission'' \<and>
   state (main sample_world initial_session
     \<lparr>clicked = MissionConfirm, radio = mission_2, typed = []\<rparr>) =
   \<lparr>page = ''shop'', mission = Some mission_2, budget = 20000, cart = [], reason = []\<rparr>"
proof -
  have h: "(mission_2, 20000) \<in> set MISSIONS"
    by (simp add: MISSIONS_def)
  show ?thesis
    using h mission_confirm_sets_budget [OF h, of "\<lparr>clicked = MissionConfirm, radio = mission_2, typed = []\<rparr>" initial_session sample_world]
    by (simp add: initial_session_def)
qed

section \<open>Leaving the shopping screen\<close>

text \<open>
  C3. On the shopping screen, pressing the button to the result screen while the cart is
  empty leaves the session as it was: the screen stays shop, and the budget, the cart,
  the mission and the justification are not modified; no file is written. When the run
  reaches the button (a mission is selected, the catalog is not empty and the run ends
  normally), the last thing shown is the warning that the cart is empty.
\<close>

theorem buy_with_empty_cart_blocked:
  assumes "page s = ''shop''" and "clicked a = Buy" and "cart s = []"
  shows "state (main w s a) = s \<and>
         page (state (main w s a)) = ''shop'' \<and>
         saved (main w s a) = [] \<and>
         (mission s \<noteq> None \<and>
          (\<exists>notice df. load_products w = Inr (notice, df) \<and> \<not> df_empty df) \<and>
          ended (main w s a) = Finished \<longrightarrow>
            last (shown (main w s a)) = Warning w_cart_empty)"
proof -
  have m: "main w s a = show_shop_page w s a"
    using assms(1) by (simp add: main_def)
  have st: "\<And>nc pc ic rs. state (shop_rows w nc pc ic Buy 0 rs s) = s"
    by (rule shop_rows_other_click) simp
  note sv = shop_rows_saved
  have sm: "shop_summary w s = ([Write cart_empty], None)"
    using assms(3) by (rule shop_summary_empty)
  have bt: "shop_buttons Buy s = (s, [Warning w_cart_empty])"
    using assms(3) by (simp add: shop_buttons_def)
  show ?thesis
  proof (cases "mission s")
    case None
    then show ?thesis using assms by (simp add: m show_shop_page_def)
  next
    case (Some l)
    then show ?thesis using assms(1,2)
      by (auto simp add: m show_shop_page_def Let_def st sv sm bt split: sum.splits prod.splits)
  qed
qed


theorem buy_with_empty_cart_blocked_witness:
  "page shopping = ''shop'' \<and> clicked (press Buy) = Buy \<and> cart shopping = [] \<and>
   mission shopping \<noteq> None \<and>
   load_products sample_world = Inr ([], sample_catalog) \<and> \<not> df_empty sample_catalog \<and>
   ended (main sample_world shopping (press Buy)) = Finished \<and>
   state (main sample_world shopping (press Buy)) = shopping \<and>
   last (shown (main sample_world shopping (press Buy))) = Warning w_cart_empty"
proof -
  have h: "page shopping = ''shop''" "clicked (press Buy) = Buy" "cart shopping = []"
    by (simp_all add: shopping_def press_def)
  have m: "mission shopping \<noteq> None" by (simp add: shopping_def)
  have d: "load_products sample_world = Inr ([], sample_catalog)" "\<not> df_empty sample_catalog"
    by (simp_all add: load_products_def sample_world_def sample_columns)
  have "ended (show_shop_page sample_world shopping (press Buy)) = Finished"
    using m h(3) by (rule sample_page_ended) (simp add: press_def)
  then have e: "ended (main sample_world shopping (press Buy)) = Finished"
    using h(1) by (simp add: main_def)
  from buy_with_empty_cart_blocked [OF h, of sample_world] h m d e show ?thesis
    by simp
qed

text \<open>
  C9. On the shopping screen the button to the mission screen leaves the mission, the
  budget, the cart and the justification as they were; when the run reaches it the
  session differs from the one before in the screen only, now mission. Confirming a
  mission from there leads to shop with the cart unchanged, and no run on the shopping
  screen removes an entry from the cart: the cart after it is the cart before it,
  followed by what the run added (nothing, unless an add button was pressed).
\<close>

theorem shop_back_changes_only_screen:
  assumes "page s = ''shop''" and "clicked a = ShopBack"
  shows "mission (state (main w s a)) = mission s \<and>
         budget (state (main w s a)) = budget s \<and>
         cart (state (main w s a)) = cart s \<and>
         reason (state (main w s a)) = reason s \<and>
         (mission s \<noteq> None \<and>
          (\<exists>notice df. load_products w = Inr (notice, df) \<and> \<not> df_empty df) \<and>
          ended (main w s a) = Finished \<longrightarrow>
            state (main w s a) = s\<lparr>page := ''mission''\<rparr>) \<and>
         (\<forall>w' a'. clicked a' = MissionConfirm \<and> radio a' \<in> fst ` set MISSIONS \<longrightarrow>
            page (state (main w' (s\<lparr>page := ''mission''\<rparr>) a')) = ''shop'' \<and>
            cart (state (main w' (s\<lparr>page := ''mission''\<rparr>) a')) = cart s) \<and>
         (\<forall>w' s' a'. page s' = ''shop'' \<longrightarrow>
            (\<exists>its. cart (state (main w' s' a')) = cart s' @ its) \<and>
            ((\<forall>i. clicked a' \<noteq> Add i) \<longrightarrow> cart (state (main w' s' a')) = cart s'))"
proof -
  have m: "main w s a = show_shop_page w s a"
    using assms(1) by (simp add: main_def)
  have c: "\<And>i. clicked a \<noteq> Add i" using assms(2) by simp
  have frame: "mission (state (main w s a)) = mission s \<and>
         budget (state (main w s a)) = budget s \<and>
         cart (state (main w s a)) = cart s \<and>
         reason (state (main w s a)) = reason s"
    unfolding m using show_shop_page_frame [of w s a] show_shop_page_other_click [of a w s, OF c]
    by simp
  have st: "\<And>nc pc ic rs. state (shop_rows w nc pc ic ShopBack 0 rs s) = s"
    by (rule shop_rows_other_click) simp
  have leave: "mission s \<noteq> None \<and>
          (\<exists>notice df. load_products w = Inr (notice, df) \<and> \<not> df_empty df) \<and>
          ended (main w s a) = Finished \<longrightarrow> state (main w s a) = s\<lparr>page := ''mission''\<rparr>"
    using assms(2)
    by (auto simp add: m show_shop_page_def Let_def st shop_buttons_def
        split: sum.splits prod.splits option.splits)
  have again: "\<forall>w' a'. clicked a' = MissionConfirm \<and> radio a' \<in> fst ` set MISSIONS \<longrightarrow>
            page (state (main w' (s\<lparr>page := ''mission''\<rparr>) a')) = ''shop'' \<and>
            cart (state (main w' (s\<lparr>page := ''mission''\<rparr>) a')) = cart s"
  proof (intro allI impI)
    fix w' :: world and a' :: action
    assume h: "clicked a' = MissionConfirm \<and> radio a' \<in> fst ` set MISSIONS"
    then obtain b where "map_of MISSIONS (radio a') = Some b"
      by (metis map_of_eq_None_iff not_Some_eq)
    with h show "page (state (main w' (s\<lparr>page := ''mission''\<rparr>) a')) = ''shop'' \<and>
            cart (state (main w' (s\<lparr>page := ''mission''\<rparr>) a')) = cart s"
      by (simp add: main_def show_mission_page_def)
  qed
  have keep: "\<forall>w' s' a'. page s' = ''shop'' \<longrightarrow>
            (\<exists>its. cart (state (main w' s' a')) = cart s' @ its) \<and>
            ((\<forall>i. clicked a' \<noteq> Add i) \<longrightarrow> cart (state (main w' s' a')) = cart s')"
  proof (intro allI impI conjI)
    fix w' :: world and s' :: session and a' :: action
    show "\<exists>its. cart (state (main w' s' a')) = cart s' @ its" by (rule main_cart_grows)
  next
    fix w' :: world and s' :: session and a' :: action
    assume "page s' = ''shop''" and "\<forall>i. clicked a' \<noteq> Add i"
    then show "cart (state (main w' s' a')) = cart s'"
      using show_shop_page_other_click [of a' w' s'] by (simp add: main_def)
  qed
  from frame leave again keep show ?thesis by blast
qed

theorem shop_back_changes_only_screen_witness:
  "page shopping = ''shop'' \<and> clicked (press ShopBack) = ShopBack \<and>
   mission shopping \<noteq> None \<and>
   load_products sample_world = Inr ([], sample_catalog) \<and> \<not> df_empty sample_catalog \<and>
   ended (main sample_world shopping (press ShopBack)) = Finished \<and>
   state (main sample_world shopping (press ShopBack)) = shopping\<lparr>page := ''mission''\<rparr> \<and>
   clicked (press MissionConfirm) = MissionConfirm \<and>
   radio (press MissionConfirm) \<in> fst ` set MISSIONS \<and>
   page (state (main sample_world (shopping\<lparr>page := ''mission''\<rparr>) (press MissionConfirm))) =
     ''shop'' \<and>
   cart (state (main sample_world (shopping\<lparr>page := ''mission''\<rparr>) (press MissionConfirm))) =
     cart shopping \<and>
   cart (state (main sample_world (shopping\<lparr>cart := [apple]\<rparr>) (press NoClick))) = [apple]"
proof -
  have h: "page shopping = ''shop''" "clicked (press ShopBack) = ShopBack"
    by (simp_all add: shopping_def press_def)
  have m: "mission shopping \<noteq> None" by (simp add: shopping_def)
  have d: "load_products sample_world = Inr ([], sample_catalog)" "\<not> df_empty sample_catalog"
    by (simp_all add: load_products_def sample_world_def sample_columns)
  have "ended (show_shop_page sample_world shopping (press ShopBack)) = Finished"
    using m by (rule sample_page_ended) (simp_all add: press_def shopping_def)
  then have e: "ended (main sample_world shopping (press ShopBack)) = Finished"
    using h(1) by (simp add: main_def)
  have c: "clicked (press MissionConfirm) = MissionConfirm"
    "radio (press MissionConfirm) \<in> fst ` set MISSIONS"
    by (simp_all add: press_def MISSIONS_def)
  have n: "page (shopping\<lparr>cart := [apple]\<rparr>) = ''shop''" "\<forall>i. clicked (press NoClick) \<noteq> Add i"
    by (simp_all add: shopping_def press_def)
  note t = shop_back_changes_only_screen [OF h, of sample_world]
  from t m d e have 1: "state (main sample_world shopping (press ShopBack)) =
      shopping\<lparr>page := ''mission''\<rparr>"
    by blast
  from t c have 2:
    "page (state (main sample_world (shopping\<lparr>page := ''mission''\<rparr>) (press MissionConfirm))) =
       ''shop'' \<and>
     cart (state (main sample_world (shopping\<lparr>page := ''mission''\<rparr>) (press MissionConfirm))) =
       cart shopping"
    by blast
  from t n have 3:
    "cart (state (main sample_world (shopping\<lparr>cart := [apple]\<rparr>) (press NoClick))) =
     cart (shopping\<lparr>cart := [apple]\<rparr>)"
    by blast
  from h m d e c 1 2 3 show ?thesis by simp
qed

section \<open>The budget\<close>

text \<open>
  C8. In every reachable session the budget is not negative: it is 0 or an amount of the
  mission table. A run changes the budget only when the mission screen is shown and its
  confirm button is pressed, and then to the amount of the selected mission; every other
  run leaves it as it was.
\<close>

theorem budget_nonnegative_and_fixed:
  "(reachable r \<longrightarrow> 0 \<le> budget r \<and> budget r \<in> insert 0 (snd ` set MISSIONS)) \<and>
   (budget (state (main w s a)) \<noteq> budget s \<longrightarrow>
      clicked a = MissionConfirm \<and> page s \<noteq> ''shop'' \<and> page s \<noteq> ''result'' \<and>
      map_of MISSIONS (radio a) = Some (budget (state (main w s a))))"
proof -
  have "reachable r \<longrightarrow> 0 \<le> budget r \<and> budget r \<in> insert 0 (snd ` set MISSIONS)"
    using reachable_budget [of r] by (auto simp add: MISSIONS_def)
  with main_budget_fixed [of w s a] show ?thesis by blast
qed

theorem budget_nonnegative_and_fixed_witness:
  "reachable (state (main sample_world initial_session (press MissionConfirm))) \<and>
   budget (state (main sample_world initial_session (press MissionConfirm))) = 10000 \<and>
   budget (state (main sample_world initial_session (press MissionConfirm))) \<noteq>
     budget initial_session \<and>
   clicked (press MissionConfirm) = MissionConfirm \<and>
   page initial_session \<noteq> ''shop'' \<and> page initial_session \<noteq> ''result'' \<and>
   0 \<le> budget (state (main sample_world initial_session (press MissionConfirm)))"
proof -
  have r: "reachable (state (main sample_world initial_session (press MissionConfirm)))"
    by (rule reachable.run) (rule reachable.start)
  have b: "budget (state (main sample_world initial_session (press MissionConfirm))) = 10000"
    by (simp add: main_def initial_session_def show_mission_page_def press_def MISSIONS_def)
  have i: "budget initial_session = 0" by (simp add: initial_session_def)
  from budget_nonnegative_and_fixed
    [of "state (main sample_world initial_session (press MissionConfirm))"
        sample_world initial_session "press MissionConfirm"]
    r b i show ?thesis
    by simp
qed

section \<open>The catalog\<close>

text \<open>
  C6. A loaded catalog has neither spelling of the name column, or neither spelling of the
  price column. When it has a row, the run of the shopping screen stops at the column
  resolution: it shows the two header lines and one error message and nothing of any
  product, leaves the session as it was and writes no file. When it has no row (or no
  column), the run returns at line 190, before any column is resolved: it ends normally
  with the two header lines and no message. The message of \<open>get_column_name\<close> holds
  both spellings it looked for.
\<close>

theorem missing_column_halts:
  assumes "page s = ''shop''" and "mission s = Some m"
    and "products_csv w = Inr df"
    and "(kor_name \<notin> set (columns df) \<and> asc ''name'' \<notin> set (columns df)) \<or>
         (kor_price \<notin> set (columns df) \<and> asc ''price'' \<notin> set (columns df))"
  shows "(\<not> df_empty df \<longrightarrow>
            ended (main w s a) = Stopped \<and>
            state (main w s a) = s \<and>
            saved (main w s a) = [] \<and>
            shown (main w s a) =
              [Write (cur_mission @ m), Write (cur_budget @ fmt_comma (budget s) @ l_won),
               Error (if kor_name \<notin> set (columns df) \<and> asc ''name'' \<notin> set (columns df)
                      then col_a @ kor_name @ col_b @ asc ''name'' @ col_c @ kor_name_label @ col_d
                      else col_a @ kor_price @ col_b @ asc ''price'' @ col_c @ kor_price @ col_d)]) \<and>
         (df_empty df \<longrightarrow>
            ended (main w s a) = Finished \<and>
            state (main w s a) = s \<and>
            saved (main w s a) = [] \<and>
            shown (main w s a) =
              [Write (cur_mission @ m), Write (cur_budget @ fmt_comma (budget s) @ l_won)]) \<and>
         (\<forall>kor eng label. kor \<notin> set (columns df) \<and> eng \<notin> set (columns df) \<longrightarrow>
            get_column_name df kor eng label =
              Inl (col_a @ kor @ col_b @ eng @ col_c @ label @ col_d))"
proof -
  have m: "main w s a = show_shop_page w s a"
    using assms(1) by (simp add: main_def)
  have ld: "load_products w = Inr ([], df)"
    using assms(3) by (simp add: load_products_def)
  have gen: "\<forall>kor eng label. kor \<notin> set (columns df) \<and> eng \<notin> set (columns df) \<longrightarrow>
            get_column_name df kor eng label =
              Inl (col_a @ kor @ col_b @ eng @ col_c @ label @ col_d)"
    by (simp add: get_column_name_def column_error_def)
  show ?thesis
  proof (cases "kor_name \<notin> set (columns df) \<and> asc ''name'' \<notin> set (columns df)")
    case True
    then have "get_column_name df kor_name (asc ''name'') kor_name_label =
        Inl (col_a @ kor_name @ col_b @ asc ''name'' @ col_c @ kor_name_label @ col_d)"
      using gen by blast
    with True assms(2) gen show ?thesis
      by (simp add: m show_shop_page_def ld Let_def)
  next
    case False
    with assms(4) have p: "kor_price \<notin> set (columns df) \<and> asc ''price'' \<notin> set (columns df)"
      by blast
    then have pe: "get_column_name df kor_price (asc ''price'') kor_price =
        Inl (col_a @ kor_price @ col_b @ asc ''price'' @ col_c @ kor_price @ col_d)"
      using gen by blast
    from False have "\<exists>nc. get_column_name df kor_name (asc ''name'') kor_name_label = Inr nc"
      by (auto simp add: get_column_name_def)
    then obtain nc where "get_column_name df kor_name (asc ''name'') kor_name_label = Inr nc" ..
    with False pe assms(2) gen show ?thesis
      by (auto simp add: m show_shop_page_def ld Let_def)
  qed
qed

theorem missing_column_halts_witness:
  "page shopping = ''shop'' \<and> mission shopping = Some mission_1 \<and>
   \<not> df_empty costed_catalog \<and>
   kor_price \<notin> set (columns costed_catalog) \<and> asc ''price'' \<notin> set (columns costed_catalog) \<and>
   ended (main (sample_world\<lparr>products_csv := Inr costed_catalog\<rparr>) shopping (press NoClick)) =
     Stopped \<and>
   shown (main (sample_world\<lparr>products_csv := Inr costed_catalog\<rparr>) shopping (press NoClick)) =
     [Write (cur_mission @ mission_1), Write (cur_budget @ fmt_comma 10000 @ l_won),
      Error (col_a @ kor_price @ col_b @ asc ''price'' @ col_c @ kor_price @ col_d)]"
proof -
  have h: "page shopping = ''shop''" "mission shopping = Some mission_1"
    "products_csv (sample_world\<lparr>products_csv := Inr costed_catalog\<rparr>) = Inr costed_catalog"
    by (simp_all add: shopping_def)
  have ne: "\<not> df_empty costed_catalog"
    by (simp add: costed_catalog_def df_empty_def)
  have n: "kor_name \<in> set (columns costed_catalog) \<or> asc ''name'' \<in> set (columns costed_catalog)"
    by (simp add: costed_catalog_def)
  have p: "kor_price \<notin> set (columns costed_catalog) \<and> asc ''price'' \<notin> set (columns costed_catalog)"
    by (simp add: costed_catalog_def kor_price_def asc_def)
  then have d: "(kor_name \<notin> set (columns costed_catalog) \<and> asc ''name'' \<notin> set (columns costed_catalog)) \<or>
      (kor_price \<notin> set (columns costed_catalog) \<and> asc ''price'' \<notin> set (columns costed_catalog))"
    by blast
  have b: "budget shopping = 10000" by (simp add: shopping_def)
  from missing_column_halts [OF h d, of "press NoClick"] h(1,2) ne n p b show ?thesis
    by auto
qed

theorem header_only_catalog_counterexample:
  "page shopping = ''shop'' \<and> mission shopping = Some mission_1 \<and>
   load_products (sample_world\<lparr>products_csv := Inr header_only_catalog\<rparr>) =
     Inr ([], header_only_catalog) \<and>
   kor_price \<notin> set (columns header_only_catalog) \<and>
   asc ''price'' \<notin> set (columns header_only_catalog) \<and>
   get_column_name header_only_catalog kor_price (asc ''price'') kor_price =
     Inl (col_a @ kor_price @ col_b @ asc ''price'' @ col_c @ kor_price @ col_d) \<and>
   ended (main (sample_world\<lparr>products_csv := Inr header_only_catalog\<rparr>) shopping (press NoClick)) =
     Finished \<and>
   shown (main (sample_world\<lparr>products_csv := Inr header_only_catalog\<rparr>) shopping (press NoClick)) =
     [Write (cur_mission @ mission_1), Write (cur_budget @ fmt_comma 10000 @ l_won)] \<and>
   state (main (sample_world\<lparr>products_csv := Inr header_only_catalog\<rparr>) shopping (press NoClick)) =
     shopping"
proof -
  have ld: "load_products (sample_world\<lparr>products_csv := Inr header_only_catalog\<rparr>) =
      Inr ([], header_only_catalog)"
    by (simp add: load_products_def)
  have p: "kor_price \<notin> set (columns header_only_catalog) \<and>
      asc ''price'' \<notin> set (columns header_only_catalog)"
    by (simp add: header_only_catalog_def kor_price_def asc_def)
  then have g: "get_column_name header_only_catalog kor_price (asc ''price'') kor_price =
      Inl (col_a @ kor_price @ col_b @ asc ''price'' @ col_c @ kor_price @ col_d)"
    by (simp add: get_column_name_def column_error_def)
  have e: "df_empty header_only_catalog"
    by (simp add: header_only_catalog_def df_empty_def)
  have h: "page shopping = ''shop''" "mission shopping = Some mission_1" "budget shopping = 10000"
    by (simp_all add: shopping_def)
  have run: "main (sample_world\<lparr>products_csv := Inr header_only_catalog\<rparr>) shopping (press NoClick) =
      \<lparr>state = shopping,
       shown = [Write (cur_mission @ mission_1), Write (cur_budget @ fmt_comma 10000 @ l_won)],
       saved = [], ended = Finished\<rparr>"
    using e h by (simp add: main_def show_shop_page_def ld Let_def)
  from ld p g h(1,2) show ?thesis
    unfolding run by simp
qed

text \<open>
  The handler of lines 221-224 covers the prices \<open>float\<close> rejects with
  \<open>ValueError\<close> (a text that is not a number): the price of such a row is 0, the row
  is shown with its image or placeholder, its name and the price 0, its add button puts it
  into the cart at the price 0.0, the run goes on to the next row, and no error message is
  shown for the row.
\<close>

lemma unparseable_price_is_zero:
  assumes "float_of_cell w (r price_col) = Inl ValueError"
  shows "price_value_of w (r price_col) = Inr (PyInt 0) \<and>
         shop_row w name_col price_col image_col c idx r s =
           \<lparr>state = (if c = Add idx
                     then s\<lparr>cart := cart s @
                            [\<lparr>name = r name_col, price = Fin 0,
                              image_url = (case image_col of None \<Rightarrow> None | Some ic \<Rightarrow> Some (r ic))\<rparr>]\<rparr>
                     else s),
            shown = row_image w image_col r @
                    [Markdown (asc ''**'' @ py_str w (r name_col) @ asc ''**''),
                     Write (price_lbl @ asc ''0'' @ l_won)] @
                    (if c = Add idx
                     then [Success (added_a @ py_str w (r name_col) @ added_b)] else []),
            saved = [], ended = Finished\<rparr> \<and>
         (\<forall>m. Error m \<notin> set (shown (shop_row w name_col price_col image_col c idx r s)))"
proof -
  have pv: "price_value_of w (r price_col) = Inr (PyInt 0)"
    using assms by (simp add: price_value_of_def)
  have row: "shop_row w name_col price_col image_col c idx r s =
           \<lparr>state = (if c = Add idx
                     then s\<lparr>cart := cart s @
                            [\<lparr>name = r name_col, price = Fin 0,
                              image_url = (case image_col of None \<Rightarrow> None | Some ic \<Rightarrow> Some (r ic))\<rparr>]\<rparr>
                     else s),
            shown = row_image w image_col r @
                    [Markdown (asc ''**'' @ py_str w (r name_col) @ asc ''**''),
                     Write (price_lbl @ asc ''0'' @ l_won)] @
                    (if c = Add idx
                     then [Success (added_a @ py_str w (r name_col) @ added_b)] else []),
            saved = [], ended = Finished\<rparr>"
    by (simp add: shop_row_def pv Let_def fmt_comma_0 add_to_cart_def float_of_int_0)
  have "\<forall>m. Error m \<notin> set (shown (shop_row w name_col price_col image_col c idx r s))"
    unfolding row by (simp add: row_image_no_error)
  with pv row show ?thesis by blast
qed

lemma unparseable_price_example:
  "float_of_cell sample_world (product (asc ''Pear'') (CStr (asc ''abc'')) (asc ''price'')) =
     Inl ValueError \<and>
   state (shop_row sample_world (asc ''name'') (asc ''price'') (Some (asc ''image_url'')) (Add 2) 2
            (product (asc ''Pear'') (CStr (asc ''abc''))) shopping) =
     shopping\<lparr>cart := [\<lparr>name = CStr (asc ''Pear''), price = Fin 0,
                          image_url = Some (CFloat NaN)\<rparr>]\<rparr> \<and>
   ended (shop_row sample_world (asc ''name'') (asc ''price'') (Some (asc ''image_url'')) (Add 2) 2
            (product (asc ''Pear'') (CStr (asc ''abc''))) shopping) = Finished \<and>
   state (main sample_world shopping (press (Add 2))) =
     shopping\<lparr>cart := [\<lparr>name = CStr (asc ''Pear''), price = Fin 0,
                          image_url = Some (CFloat NaN)\<rparr>]\<rparr>"
proof -
  have h: "float_of_cell sample_world (product (asc ''Pear'') (CStr (asc ''abc'')) (asc ''price'')) =
      Inl ValueError"
    by (simp add: product_def sample_world_def asc_def)
  have c: "cart shopping = []" by (simp add: shopping_def)
  have i: "product (asc ''Pear'') (CStr (asc ''abc'')) (asc ''image_url'') = CFloat NaN"
    "product (asc ''Pear'') (CStr (asc ''abc'')) (asc ''name'') = CStr (asc ''Pear'')"
    by (simp_all add: product_def asc_def)
  note t = unparseable_price_is_zero
    [where r = "product (asc ''Pear'') (CStr (asc ''abc''))" and price_col = "asc ''price''"
       and w = sample_world and name_col = "asc ''name''"
       and image_col = "Some (asc ''image_url'')" and c = "Add 2" and idx = 2 and s = shopping,
     OF h]
  have rows: "state (shop_rows sample_world (asc ''name'') (asc ''price'') (Some (asc ''image_url''))
                (Add 2) 0 (rows sample_catalog) shopping) =
     shopping\<lparr>cart := [\<lparr>name = CStr (asc ''Pear''), price = Fin 0,
                          image_url = Some (CFloat NaN)\<rparr>]\<rparr>"
    by (simp add: sample_catalog_def shop_row_def price_value_of_def product_def asc_def
        sample_world_def float_of_int_small float_of_int_0 trunc_def add_to_cart_def Let_def
        shopping_def)
  have ld: "load_products sample_world = Inr ([], sample_catalog)"
    by (simp add: load_products_def sample_world_def)
  have "state (show_shop_page sample_world shopping (press (Add 2))) =
     shopping\<lparr>cart := [\<lparr>name = CStr (asc ''Pear''), price = Fin 0,
                          image_url = Some (CFloat NaN)\<rparr>]\<rparr>"
    using rows
    by (simp add: show_shop_page_def ld sample_columns sample_rows_ended Let_def
        press_def shop_buttons_def shopping_def [THEN arg_cong, of mission]
        split: prod.splits option.splits)
  then have run: "state (main sample_world shopping (press (Add 2))) =
     shopping\<lparr>cart := [\<lparr>name = CStr (asc ''Pear''), price = Fin 0,
                          image_url = Some (CFloat NaN)\<rparr>]\<rparr>"
    by (simp add: main_def shopping_def)
  from t h c i run show ?thesis by simp
qed

text \<open>
  An empty price cell is not such a row: pandas reads it as the float NaN, which
  \<open>float\<close> returns as it is, so that the handler is not entered, and \<open>int\<close> of it
  raises \<open>ValueError\<close> at line 225, outside the \<open>try\<close>. The row ends the run with
  its image and name shown and no price, whatever was clicked, and puts nothing into the
  cart.
\<close>

lemma missing_price_raises:
  assumes "r price_col = CFloat NaN"
  shows "price_value_of w (r price_col) = Inr (PyFloat NaN) \<and>
         shop_row w name_col price_col image_col c idx r s =
           \<lparr>state = s,
            shown = row_image w image_col r @
                    [Markdown (asc ''**'' @ py_str w (r name_col) @ asc ''**'')],
            saved = [], ended = Raised ValueError\<rparr>"
  using assms by (simp add: shop_row_def price_value_of_def Let_def)

text \<open>
  C7. The claim does not hold of a row whose price cell is empty. For the catalog with the
  header \<open>name,price\<close> and the one row \<open>Apple,\<close>, the price cell is NaN; \<open>float\<close>
  returns it, \<open>int\<close> rejects it, and the run of the shopping screen ends with the
  uncaught \<open>ValueError\<close> after the two header lines, the image placeholder and the name:
  no price 0 is shown, and a click on the add button of the row leaves the cart empty.
\<close>

theorem blank_price_raises:
  "rows blank_price_catalog = [product (asc ''Apple'') (CFloat NaN)] \<and>
   product (asc ''Apple'') (CFloat NaN) (asc ''price'') = CFloat NaN \<and>
   float_of_cell sample_world (CFloat NaN) = Inr NaN \<and>
   price_value_of sample_world (CFloat NaN) = Inr (PyFloat NaN) \<and>
   py_int (PyFloat NaN) = Inl ValueError \<and>
   ended (main (sample_world\<lparr>products_csv := Inr blank_price_catalog\<rparr>) shopping (press NoClick)) =
     Raised ValueError \<and>
   shown (main (sample_world\<lparr>products_csv := Inr blank_price_catalog\<rparr>) shopping (press NoClick)) =
     [Write (cur_mission @ mission_1), Write (cur_budget @ fmt_comma 10000 @ l_won),
      Write img_none, Markdown (asc ''**'' @ asc ''Apple'' @ asc ''**'')] \<and>
   ended (main (sample_world\<lparr>products_csv := Inr blank_price_catalog\<rparr>) shopping (press (Add 0))) =
     Raised ValueError \<and>
   state (main (sample_world\<lparr>products_csv := Inr blank_price_catalog\<rparr>) shopping (press (Add 0))) =
     shopping"
proof -
  define w where "w = sample_world\<lparr>products_csv := Inr blank_price_catalog\<rparr>"
  have ld: "load_products w = Inr ([], blank_price_catalog)"
    by (simp add: load_products_def w_def)
  have ne: "\<not> df_empty blank_price_catalog"
    by (simp add: blank_price_catalog_def df_empty_def)
  have cols: "get_column_name blank_price_catalog kor_name (asc ''name'') kor_name_label =
        Inr (asc ''name'')"
      "get_column_name blank_price_catalog kor_price (asc ''price'') kor_price =
        Inr (asc ''price'')"
      "image_column blank_price_catalog = None"
    by (simp_all add: get_column_name_def image_column_def blank_price_catalog_def
        kor_name_def kor_price_def img1_def img2_def asc_def)
  have r: "rows blank_price_catalog = [product (asc ''Apple'') (CFloat NaN)]"
    by (simp add: blank_price_catalog_def)
  have c: "product (asc ''Apple'') (CFloat NaN) (asc ''price'') = CFloat NaN"
    "product (asc ''Apple'') (CFloat NaN) (asc ''name'') = CStr (asc ''Apple'')"
    by (simp_all add: product_def asc_def)
  have f: "float_of_cell sample_world (CFloat NaN) = Inr NaN"
    "price_value_of sample_world (CFloat NaN) = Inr (PyFloat NaN)"
    by (simp_all add: price_value_of_def)
  have row: "\<And>k. shop_row w (asc ''name'') (asc ''price'') None k 0
                 (product (asc ''Apple'') (CFloat NaN)) shopping =
      \<lparr>state = shopping,
       shown = [Write img_none, Markdown (asc ''**'' @ asc ''Apple'' @ asc ''**'')],
       saved = [], ended = Raised ValueError\<rparr>"
    by (simp add: shop_row_def price_value_of_def c row_image_def Let_def)
  have m: "mission shopping = Some mission_1" "budget shopping = 10000" "page shopping = ''shop''"
    by (simp_all add: shopping_def)
  have run: "\<And>k. main w shopping (press k) =
      \<lparr>state = shopping,
       shown = [Write (cur_mission @ mission_1), Write (cur_budget @ fmt_comma 10000 @ l_won),
                Write img_none, Markdown (asc ''**'' @ asc ''Apple'' @ asc ''**'')],
       saved = [], ended = Raised ValueError\<rparr>"
    using ne by (simp add: main_def show_shop_page_def m ld cols r row Let_def press_def)
  from r c(1) f show ?thesis
    unfolding w_def [symmetric] run by simp
qed

section \<open>Submitting\<close>

text \<open>
  C5. On the result screen, pressing submit while the text area holds nothing but
  whitespace writes no file and offers no download; the screen stays result and the
  mission, the budget and the cart are as before. The session is not left as it was: the
  one key a run may change is the justification, which line 309 sets to the content of
  the text area before the button is read, so the session is as before only when the text
  area still holds the stored justification. When the run reaches the button (a mission
  is selected and the run ends normally), the last thing shown is the warning and the
  session is the one before with the content of the text area as its justification.
\<close>

theorem blank_reason_submission_refused:
  assumes "page s = ''result''" and "clicked a = Submit" and "strip (typed a) = []"
  shows "saved (main w s a) = [] \<and>
         (\<forall>n. Download_button n \<notin> set (shown (main w s a))) \<and>
         page (state (main w s a)) = ''result'' \<and>
         mission (state (main w s a)) = mission s \<and>
         budget (state (main w s a)) = budget s \<and>
         cart (state (main w s a)) = cart s \<and>
         (state (main w s a) = s \<or> state (main w s a) = s\<lparr>reason := typed a\<rparr>) \<and>
         (typed a = reason s \<longrightarrow> state (main w s a) = s) \<and>
         (mission s \<noteq> None \<and> ended (main w s a) = Finished \<longrightarrow>
            last (shown (main w s a)) = Warning w_reason \<and>
            reason (state (main w s a)) = typed a \<and>
            state (main w s a) = s\<lparr>reason := typed a\<rparr>)"
proof -
  have m: "main w s a = show_result_page w s a"
    using assms(1) by (simp add: main_def)
  have sm: "\<And>out e n. result_summary w s = (out, e) \<Longrightarrow> Download_button n \<notin> set out"
    by (auto simp add: result_summary_def remaining_message_def cart_table_def Let_def
        split: sum.splits if_splits)
  have core: "saved (main w s a) = [] \<and>
         (\<forall>n. Download_button n \<notin> set (shown (main w s a))) \<and>
         page (state (main w s a)) = ''result'' \<and>
         mission (state (main w s a)) = mission s \<and>
         budget (state (main w s a)) = budget s \<and>
         cart (state (main w s a)) = cart s \<and>
         (state (main w s a) = s \<or> state (main w s a) = s\<lparr>reason := typed a\<rparr>) \<and>
         (mission s \<noteq> None \<and> ended (main w s a) = Finished \<longrightarrow>
            last (shown (main w s a)) = Warning w_reason \<and>
            reason (state (main w s a)) = typed a \<and>
            state (main w s a) = s\<lparr>reason := typed a\<rparr>)"
  proof (cases "mission s")
    case None
    then show ?thesis using assms by (simp add: m show_result_page_def)
  next
    case (Some l)
    obtain out e where r: "result_summary w s = (out, e)" by (cases "result_summary w s")
    show ?thesis
    proof (cases e)
      case None
      with Some r assms sm [of out] show ?thesis
        by (simp add: m show_result_page_def Let_def)
    next
      case (Some x)
      with \<open>mission s = Some l\<close> r assms sm [of out] show ?thesis
        by (simp add: m show_result_page_def Let_def)
    qed
  qed
  have "typed a = reason s \<longrightarrow> state (main w s a) = s"
  proof
    assume "typed a = reason s"
    then have "s\<lparr>reason := typed a\<rparr> = s" by simp
    with core show "state (main w s a) = s" by auto
  qed
  with core show ?thesis by blast
qed

lemma reviewing_summary: "snd (result_summary sample_world reviewing) = None"
  by (simp add: result_summary_def calc_cart_total_def reviewing_def apple_def sample_world_def
      py_sum_def float_of_int_small fsub_def round_double_numeral cart_table_def trunc_def
      remaining_message_def Let_def)

theorem blank_reason_submission_refused_witness:
  "page reviewing = ''result'' \<and>
   clicked \<lparr>clicked = Submit, radio = mission_1, typed = [0x20, 0x0A]\<rparr> = Submit \<and>
   strip (typed \<lparr>clicked = Submit, radio = mission_1, typed = [0x20, 0x0A]\<rparr>) = [] \<and>
   typed \<lparr>clicked = Submit, radio = mission_1, typed = [0x20, 0x0A]\<rparr> = reason reviewing \<and>
   mission reviewing \<noteq> None \<and>
   ended (main sample_world reviewing \<lparr>clicked = Submit, radio = mission_1, typed = [0x20, 0x0A]\<rparr>) =
     Finished \<and>
   saved (main sample_world reviewing \<lparr>clicked = Submit, radio = mission_1, typed = [0x20, 0x0A]\<rparr>) =
     [] \<and>
   last (shown (main sample_world reviewing
                  \<lparr>clicked = Submit, radio = mission_1, typed = [0x20, 0x0A]\<rparr>)) =
     Warning w_reason \<and>
   state (main sample_world reviewing \<lparr>clicked = Submit, radio = mission_1, typed = [0x20, 0x0A]\<rparr>) =
     reviewing"
proof -
  define a where "a = \<lparr>clicked = Submit, radio = mission_1, typed = [0x20, 0x0A]\<rparr>"
  have h: "page reviewing = ''result''" "clicked a = Submit" "strip (typed a) = []"
    by (simp_all add: reviewing_def a_def strip_def py_isspace_def)
  have k: "typed a = reason reviewing" by (simp add: reviewing_def a_def)
  have m: "mission reviewing \<noteq> None" by (simp add: reviewing_def)
  obtain out where r: "result_summary sample_world reviewing = (out, None)"
    using reviewing_summary by (cases "result_summary sample_world reviewing") simp
  have "ended (show_result_page sample_world reviewing a) = Finished"
    using h(2,3) by (simp add: show_result_page_def r Let_def reviewing_def [THEN arg_cong, of mission])
  then have e: "ended (main sample_world reviewing a) = Finished"
    using h(1) by (simp add: main_def)
  note t = blank_reason_submission_refused [OF h, of sample_world]
  from t m e have 1: "last (shown (main sample_world reviewing a)) = Warning w_reason"
    by blast
  from t k have 2: "state (main sample_world reviewing a) = reviewing"
    by blast
  from t have 3: "saved (main sample_world reviewing a) = []"
    by blast
  from h k m e 1 2 3 show ?thesis
    unfolding a_def by simp
qed

lemma result_summary_reason: "result_summary w (s\<lparr>reason := t\<rparr>) = result_summary w s"
proof -
  have c: "cart (s\<lparr>reason := t\<rparr>) = cart s" "budget (s\<lparr>reason := t\<rparr>) = budget s"
    by simp_all
  have ct: "cart_table (s\<lparr>reason := t\<rparr>) = cart_table s"
    by (simp add: cart_table_def)
  show ?thesis
    unfolding result_summary_def calc_cart_total_def ct c by (rule refl)
qed

theorem blank_reason_overwritten_counterexample:
  "page (reviewing\<lparr>reason := asc ''good''\<rparr>) = ''result'' \<and>
   clicked \<lparr>clicked = Submit, radio = mission_1, typed = [0x20, 0x0A]\<rparr> = Submit \<and>
   strip (typed \<lparr>clicked = Submit, radio = mission_1, typed = [0x20, 0x0A]\<rparr>) = [] \<and>
   ended (main sample_world (reviewing\<lparr>reason := asc ''good''\<rparr>)
            \<lparr>clicked = Submit, radio = mission_1, typed = [0x20, 0x0A]\<rparr>) = Finished \<and>
   last (shown (main sample_world (reviewing\<lparr>reason := asc ''good''\<rparr>)
                  \<lparr>clicked = Submit, radio = mission_1, typed = [0x20, 0x0A]\<rparr>)) =
     Warning w_reason \<and>
   reason (reviewing\<lparr>reason := asc ''good''\<rparr>) = asc ''good'' \<and>
   reason (state (main sample_world (reviewing\<lparr>reason := asc ''good''\<rparr>)
                    \<lparr>clicked = Submit, radio = mission_1, typed = [0x20, 0x0A]\<rparr>)) =
     [0x20, 0x0A] \<and>
   state (main sample_world (reviewing\<lparr>reason := asc ''good''\<rparr>)
            \<lparr>clicked = Submit, radio = mission_1, typed = [0x20, 0x0A]\<rparr>) \<noteq>
     reviewing\<lparr>reason := asc ''good''\<rparr>"
proof -
  define a where "a = \<lparr>clicked = Submit, radio = mission_1, typed = [0x20, 0x0A]\<rparr>"
  define s where "s = reviewing\<lparr>reason := asc ''good''\<rparr>"
  have h: "page s = ''result''" "clicked a = Submit" "strip (typed a) = []"
    "mission s = Some mission_1" "typed a = [0x20, 0x0A]" "reason s = asc ''good''"
    by (simp_all add: reviewing_def s_def a_def strip_def py_isspace_def)
  obtain out where r: "result_summary sample_world s = (out, None)"
    using reviewing_summary unfolding s_def result_summary_reason
    by (cases "result_summary sample_world reviewing") simp
  have run: "main sample_world s a =
      \<lparr>state = s\<lparr>reason := [0x20, 0x0A]\<rparr>,
       shown = [Write (res_mission @ mission_1), Write (cur_budget @ fmt_comma (budget s) @ l_won)]
               @ out @ [Warning w_reason],
       saved = [], ended = Finished\<rparr>"
    using h by (simp add: main_def show_result_page_def r Let_def)
  have d: "s\<lparr>reason := [0x20, 0x0A]\<rparr> \<noteq> s"
  proof
    assume "s\<lparr>reason := [0x20, 0x0A]\<rparr> = s"
    then have "reason (s\<lparr>reason := [0x20, 0x0A]\<rparr>) = reason s" by simp
    then show False by (simp add: h(6) asc_def)
  qed
  from h d show ?thesis
    unfolding a_def [symmetric] s_def [symmetric] run by simp
qed
section \<open>The submission image\<close>

text \<open>
  C4. For a cart of finite prices the renderer builds its lines in this order: the
  mission line, the budget line, an empty line, the items header, one line per cart
  entry (or the placeholder line when the cart is empty), an empty line, the reason
  header, and the reason split at line feeds, each paragraph wrapped at width 30 and a
  paragraph that is blank after \<open>strip\<close> kept as one empty line. These are the lines the
  image draws, top to bottom. The budget and the prices are written with a comma before
  every group of three digits (taking the commas out gives \<open>str\<close> of the number) and
  the suffix: 10,000 and "- Apple (1,500" with the suffix for the example.
\<close>

theorem submission_lines_layout:
  assumes "\<forall>it\<in>set crt. is_finite (price it)"
  shows "submission_lines w m (PyInt b) crt txt =
           Inr ([l_mission @ m, l_budget @ fmt_comma b @ l_won, [], l_items] @
                (if crt = [] then [l_noitems]
                 else map (\<lambda>it. asc ''- '' @ py_str w (name it) @ asc '' ('' @
                                 fmt_comma (trunc (fval (price it))) @ l_won @ asc '')'') crt) @
                [[], l_reason] @
                concat (map (\<lambda>para. if strip para = [] then [[]] else wrap w para 30)
                            (split_nl txt))) \<and>
         (\<exists>f. create_submission_png w m (PyInt b) crt txt = Inr f \<and>
              Inr (map (\<lambda>(x, y, l). l) (drawn f)) = submission_lines w m (PyInt b) crt txt) \<and>
         filter (\<lambda>c. c \<noteq> 0x2C) (fmt_comma b) = str_int b \<and>
         fmt_comma 10000 @ l_won = asc ''10,000'' @ [0xC6D0] \<and>
         submission_lines w mission_1 (PyInt 10000)
             [\<lparr>name = CStr (asc ''Apple''), price = Fin 1500, image_url = None\<rparr>] (asc ''test'') =
           Inr ([l_mission @ mission_1, l_budget @ asc ''10,000'' @ [0xC6D0], [], l_items,
                 asc ''- Apple (1,500'' @ [0xC6D0] @ asc '')'', [], l_reason] @
                wrap w (asc ''test'') 30)"
proof -
  have n: "py_int (PyInt b) = Inr b" by simp
  note lines = submission_lines_eq [OF assms n, of w m "txt"]
  have layout: "submission_lines w m (PyInt b) crt txt =
           Inr ([l_mission @ m, l_budget @ fmt_comma b @ l_won, [], l_items] @
                (if crt = [] then [l_noitems]
                 else map (\<lambda>it. asc ''- '' @ py_str w (name it) @ asc '' ('' @
                                 fmt_comma (trunc (fval (price it))) @ l_won @ asc '')'') crt) @
                [[], l_reason] @
                concat (map (\<lambda>para. if strip para = [] then [[]] else wrap w para 30)
                            (split_nl txt)))"
    unfolding lines item_line_def ..
  from create_submission_png_lines [OF lines]
  have image: "\<exists>f. create_submission_png w m (PyInt b) crt txt = Inr f \<and>
              Inr (map (\<lambda>(x, y, l). l) (drawn f)) = submission_lines w m (PyInt b) crt txt"
    unfolding lines by blast
  have "\<forall>it\<in>set [\<lparr>name = CStr (asc ''Apple''), price = Fin 1500, image_url = None\<rparr>].
          is_finite (price it)"
    by simp
  moreover have cat: "asc ''- '' @ asc ''Apple'' @ asc '' ('' @ asc ''1,500'' = asc ''- Apple (1,500''"
    by (simp add: asc_def)
  ultimately have example: "submission_lines w mission_1 (PyInt 10000)
             [\<lparr>name = CStr (asc ''Apple''), price = Fin 1500, image_url = None\<rparr>] (asc ''test'') =
           Inr ([l_mission @ mission_1, l_budget @ asc ''10,000'' @ [0xC6D0], [], l_items,
                 asc ''- Apple (1,500'' @ [0xC6D0] @ asc '')'', [], l_reason] @
                wrap w (asc ''test'') 30)"
    using submission_lines_eq [of _ "PyInt 10000" 10000 w mission_1 "asc ''test''"]
    by (simp add: item_line_def fmt_examples trunc_def l_won_def split_test strip_test)
  from layout image example show ?thesis
    by (simp add: fmt_comma_without_commas fmt_examples l_won_def)
qed

theorem submission_lines_layout_witness:
  "is_finite (price apple) \<and> is_finite (price milk) \<and>
   submission_lines sample_world mission_1 (PyInt 10000) [apple, milk] [0x61, 0x0A, 0x0A, 0x62] =
     Inr [l_mission @ mission_1, l_budget @ asc ''10,000'' @ l_won, [], l_items,
          asc ''- Apple (1,500'' @ l_won @ asc '')'', asc ''- Milk (2,500'' @ l_won @ asc '')'',
          [], l_reason, [0x61], [], [0x62]]"
proof -
  have h: "\<forall>it\<in>set [apple, milk]. is_finite (price it)"
    by (simp add: apple_def milk_def)
  have f: "fmt_comma 2500 = asc ''2,500''"
    by (simp add: fmt_comma_def group3.simps digits.simps digit_def asc_def)
  have s: "strip [0x61] \<noteq> []" "strip [0x62] \<noteq> []" "strip [] = []"
    by (simp_all add: strip_def py_isspace_def)
  from submission_lines_layout [OF h, of sample_world mission_1 10000 "[0x61, 0x0A, 0x0A, 0x62]"]
  have "submission_lines sample_world mission_1 (PyInt 10000) [apple, milk] [0x61, 0x0A, 0x0A, 0x62] =
     Inr [l_mission @ mission_1, l_budget @ asc ''10,000'' @ l_won, [], l_items,
          asc ''- Apple (1,500'' @ l_won @ asc '')'', asc ''- Milk (2,500'' @ l_won @ asc '')'',
          [], l_reason, [0x61], [], [0x62]]"
    by (simp add: apple_def milk_def fmt_examples f trunc_def s sample_world_def asc_def)
  with h show ?thesis by simp
qed

text \<open>
  C10. In the lines of the image the budget and every price go through \<open>int\<close> before
  they are formatted: a finite \<open>float\<close> is cut at the decimal point, toward zero (its
  integer part is at most its magnitude and less than one away from it, the floor above
  zero and the ceiling below), never rounded. The double nearest to 1500.9 is written
  1,500.
\<close>

theorem rendered_amounts_truncated:
  assumes "\<forall>it\<in>set crt. is_finite (price it)"
  shows "submission_lines w m (PyFloat (Fin x)) crt txt =
           Inr ([l_mission @ m, l_budget @ fmt_comma (trunc x) @ l_won, [], l_items] @
                (if crt = [] then [l_noitems]
                 else map (\<lambda>it. asc ''- '' @ py_str w (name it) @ asc '' ('' @
                                 fmt_comma (trunc (fval (price it))) @ l_won @ asc '')'') crt) @
                [[], l_reason] @ reason_lines w txt) \<and>
         \<bar>of_int (trunc x)\<bar> \<le> \<bar>x\<bar> \<and> \<bar>x\<bar> < \<bar>of_int (trunc x)\<bar> + 1 \<and>
         (0 \<le> x \<longrightarrow> trunc x = \<lfloor>x\<rfloor>) \<and> (x < 0 \<longrightarrow> trunc x = \<lceil>x\<rceil>) \<and>
         round_double (15009 / 10) = Fin (3300514004257997 / 2199023255552) \<and>
         trunc (3300514004257997 / 2199023255552) = 1500 \<and>
         item_lines w [\<lparr>name = CStr nm, price = Fin (3300514004257997 / 2199023255552),
                         image_url = img\<rparr>] =
           Inr [asc ''- '' @ nm @ asc '' (1,500'' @ [0xC6D0] @ asc '')'']"
proof -
  have n: "py_int (PyFloat (Fin x)) = Inr (trunc x)" by simp
  have layout: "submission_lines w m (PyFloat (Fin x)) crt txt =
           Inr ([l_mission @ m, l_budget @ fmt_comma (trunc x) @ l_won, [], l_items] @
                (if crt = [] then [l_noitems]
                 else map (\<lambda>it. asc ''- '' @ py_str w (name it) @ asc '' ('' @
                                 fmt_comma (trunc (fval (price it))) @ l_won @ asc '')'') crt) @
                [[], l_reason] @ reason_lines w txt)"
    unfolding submission_lines_eq [OF assms n] item_line_def reason_lines_def wrap_width_def ..
  have bounds: "\<bar>of_int (trunc x)\<bar> \<le> \<bar>x\<bar> \<and> \<bar>x\<bar> < \<bar>of_int (trunc x)\<bar> + 1"
  proof (cases "0 \<le> x")
    case True
    then have "0 \<le> \<lfloor>x\<rfloor>" by simp
    with True of_int_floor_le [of x] floor_correct [of x] show ?thesis
      by (simp add: trunc_def)
  next
    case False
    then have "\<lceil>x\<rceil> \<le> 0" by (simp add: ceiling_le_iff)
    with False le_of_int_ceiling [of x] ceiling_correct [of x] show ?thesis
      by (simp add: trunc_def)
  qed
  have rounded: "round_double (15009 / 10) = Fin (3300514004257997 / 2199023255552)"
    by (simp add: rd)
  have cut: "trunc (3300514004257997 / 2199023255552) = 1500"
    by (simp add: trunc_def)
  have line: "item_lines w [\<lparr>name = CStr nm, price = Fin (3300514004257997 / 2199023255552),
                         image_url = img\<rparr>] =
           Inr [asc ''- '' @ nm @ asc '' (1,500'' @ [0xC6D0] @ asc '')'']"
    by (simp add: cut item_line_def fmt_examples l_won_def asc_def)
  from layout bounds rounded cut line show ?thesis
    by (simp add: trunc_def)
qed

theorem rendered_amounts_truncated_witness:
  "is_finite (price (apple\<lparr>price := Fin (3300514004257997 / 2199023255552)\<rparr>)) \<and>
   submission_lines sample_world mission_1 (PyFloat (Fin (19999 / 2)))
       [apple\<lparr>price := Fin (3300514004257997 / 2199023255552)\<rparr>] [] =
     Inr [l_mission @ mission_1, l_budget @ asc ''9,999'' @ l_won, [], l_items,
          asc ''- Apple (1,500'' @ l_won @ asc '')'', [], l_reason, []]"
proof -
  have h: "\<forall>it\<in>set [apple\<lparr>price := Fin (3300514004257997 / 2199023255552)\<rparr>]. is_finite (price it)"
    by simp
  have f: "fmt_comma 9999 = asc ''9,999''"
    by (simp add: fmt_comma_def group3.simps digits.simps digit_def asc_def)
  from rendered_amounts_truncated [OF h, of sample_world mission_1 "19999 / 2" "[]"]
  have "submission_lines sample_world mission_1 (PyFloat (Fin (19999 / 2)))
       [apple\<lparr>price := Fin (3300514004257997 / 2199023255552)\<rparr>] [] =
     Inr [l_mission @ mission_1, l_budget @ asc ''9,999'' @ l_won, [], l_items,
          asc ''- Apple (1,500'' @ l_won @ asc '')'', [], l_reason, []]"
    by (simp add: apple_def fmt_examples f trunc_def reason_lines_def strip_def asc_def)
  with h show ?thesis by simp
qed

section \<open>The cart\<close>

lemma add_to_cart_float:
  "add_to_cart s n (PyFloat p) img =
   Inr (s\<lparr>cart := cart s @ [\<lparr>name = n, price = p, image_url = img\<rparr>]\<rparr>)"
  by (simp add: add_to_cart_def)

lemma add_items_floats:
  "add_items s (map (\<lambda>(n, p, img). (n, PyFloat p, img)) calls) =
   Inr (s\<lparr>cart := cart s @ map (\<lambda>(n, p, img). \<lparr>name = n, price = p, image_url = img\<rparr>) calls\<rparr>)"
proof (induction calls arbitrary: s)
  case Nil
  then show ?case by simp
next
  case (Cons c calls)
  obtain n p img where c: "c = (n, p, img)" by (cases c)
  show ?case
    by (simp add: c add_to_cart_float Cons.IH)
qed

text \<open>
  C2 (as amended). Every \<open>add_to_cart\<close> call with a \<open>float\<close> price appends one entry, so
  after a sequence of calls the cart is the old cart followed by the new entries in call
  order. \<open>calc_cart_total\<close> returns the \<open>int\<close> 0 for an empty cart and otherwise
  Python's floating-point \<open>sum\<close> of the prices in cart order. When every price is a
  whole number and the magnitudes of the prices add up to at most \<open>2^53\<close>, that is the
  exact arithmetic sum of the prices, and it is the same for every permutation of the
  cart, on either interpreter.
\<close>

theorem cart_total_float_sum:
  "add_items s (map (\<lambda>(n, p, img). (n, PyFloat p, img)) calls) =
     Inr (s\<lparr>cart := cart s @ map (\<lambda>(n, p, img). \<lparr>name = n, price = p, image_url = img\<rparr>) calls\<rparr>) \<and>
   calc_cart_total w s = py_sum (python w) (map price (cart s)) \<and>
   (cart s = [] \<longrightarrow> calc_cart_total w s = PyInt 0) \<and>
   ((\<forall>it\<in>set (cart s). is_whole (price it)) \<and> (\<Sum>it\<leftarrow>cart s. \<bar>fval (price it)\<bar>) \<le> 2 ^ 53 \<longrightarrow>
      calc_cart_total w s =
        (if cart s = [] then PyInt 0 else PyFloat (Fin (exact_total (cart s)))) \<and>
      (\<forall>w' s'. mset (cart s') = mset (cart s) \<longrightarrow> calc_cart_total w' s' = calc_cart_total w s))"
proof -
  have empty: "cart s = [] \<longrightarrow> calc_cart_total w s = PyInt 0"
    by (simp add: calc_cart_total_def py_sum_def)
  have whole: "(\<forall>it\<in>set (cart s). is_whole (price it)) \<and> (\<Sum>it\<leftarrow>cart s. \<bar>fval (price it)\<bar>) \<le> 2 ^ 53 \<longrightarrow>
      calc_cart_total w s =
        (if cart s = [] then PyInt 0 else PyFloat (Fin (exact_total (cart s)))) \<and>
      (\<forall>w' s'. mset (cart s') = mset (cart s) \<longrightarrow> calc_cart_total w' s' = calc_cart_total w s)"
  proof (intro impI conjI allI)
    assume h: "(\<forall>it\<in>set (cart s). is_whole (price it)) \<and> (\<Sum>it\<leftarrow>cart s. \<bar>fval (price it)\<bar>) \<le> 2 ^ 53"
    then have h1: "\<forall>it\<in>set (cart s). is_whole (price it)"
      and h2: "(\<Sum>it\<leftarrow>cart s. \<bar>fval (price it)\<bar>) \<le> 2 ^ 53"
      by blast+
    from h1 h2 show t: "calc_cart_total w s =
        (if cart s = [] then PyInt 0 else PyFloat (Fin (exact_total (cart s))))"
      by (rule cart_total_whole)
    fix w' :: world and s' :: session
    assume p: "mset (cart s') = mset (cart s)"
    then have "set (cart s') = set (cart s)" by (rule mset_eq_setD)
    with h1 have 1: "\<forall>it\<in>set (cart s'). is_whole (price it)" by simp
    from h2 have 2: "(\<Sum>it\<leftarrow>cart s'. \<bar>fval (price it)\<bar>) \<le> 2 ^ 53"
      unfolding abs_total_mset [OF p] .
    from p have "length (cart s') = length (cart s)" by (rule mset_eq_length)
    then have 3: "cart s' = [] \<longleftrightarrow> cart s = []" by (simp flip: length_0_conv)
    have "calc_cart_total w' s' =
        (if cart s' = [] then PyInt 0 else PyFloat (Fin (exact_total (cart s'))))"
      using 1 2 by (rule cart_total_whole)
    also have "\<dots> = (if cart s = [] then PyInt 0 else PyFloat (Fin (exact_total (cart s))))"
      unfolding 3 exact_total_mset [OF p] ..
    also have "\<dots> = calc_cart_total w s" by (rule t [symmetric])
    finally show "calc_cart_total w' s' = calc_cart_total w s" .
  qed
  show ?thesis
    by (intro conjI add_items_floats calc_cart_total_def empty whole)
qed

theorem cart_total_float_sum_witness:
  "cart shopping = [] \<and> calc_cart_total sample_world shopping = PyInt 0 \<and>
   is_whole (price apple) \<and> is_whole (price milk) \<and>
   (\<Sum>it\<leftarrow>cart (shopping\<lparr>cart := [apple, milk]\<rparr>). \<bar>fval (price it)\<bar>) \<le> 2 ^ 53 \<and>
   calc_cart_total sample_world (shopping\<lparr>cart := [apple, milk]\<rparr>) = PyFloat (Fin 4000) \<and>
   mset (cart (shopping\<lparr>cart := [milk, apple]\<rparr>)) = mset (cart (shopping\<lparr>cart := [apple, milk]\<rparr>)) \<and>
   calc_cart_total (sample_world\<lparr>python := Before_3_12\<rparr>) (shopping\<lparr>cart := [milk, apple]\<rparr>) =
     PyFloat (Fin 4000)"
proof -
  have e: "cart shopping = []" by (simp add: shopping_def)
  have h: "(\<forall>it\<in>set (cart (shopping\<lparr>cart := [apple, milk]\<rparr>)). is_whole (price it)) \<and>
      (\<Sum>it\<leftarrow>cart (shopping\<lparr>cart := [apple, milk]\<rparr>). \<bar>fval (price it)\<bar>) \<le> 2 ^ 53"
    by (simp add: apple_def milk_def)
  have p: "mset (cart (shopping\<lparr>cart := [milk, apple]\<rparr>)) =
      mset (cart (shopping\<lparr>cart := [apple, milk]\<rparr>))"
    by (simp add: add_mset_commute)
  note t0 = cart_total_float_sum [where s = shopping and w = sample_world and calls = "[]"]
  note t = cart_total_float_sum
    [where s = "shopping\<lparr>cart := [apple, milk]\<rparr>" and w = sample_world and calls = "[]"]
  from t0 e have 0: "calc_cart_total sample_world shopping = PyInt 0" by blast
  from t h have 1: "calc_cart_total sample_world (shopping\<lparr>cart := [apple, milk]\<rparr>) =
      (if cart (shopping\<lparr>cart := [apple, milk]\<rparr>) = [] then PyInt 0
       else PyFloat (Fin (exact_total (cart (shopping\<lparr>cart := [apple, milk]\<rparr>)))))"
    and 2: "\<forall>w' s'. mset (cart s') = mset (cart (shopping\<lparr>cart := [apple, milk]\<rparr>)) \<longrightarrow>
         calc_cart_total w' s' = calc_cart_total sample_world (shopping\<lparr>cart := [apple, milk]\<rparr>)"
    by blast+
  from 1 have 3: "calc_cart_total sample_world (shopping\<lparr>cart := [apple, milk]\<rparr>) =
      PyFloat (Fin 4000)"
    by (simp add: exact_total_def apple_def milk_def)
  from 2 p have "calc_cart_total (sample_world\<lparr>python := Before_3_12\<rparr>)
        (shopping\<lparr>cart := [milk, apple]\<rparr>) =
      calc_cart_total sample_world (shopping\<lparr>cart := [apple, milk]\<rparr>)"
    by blast
  moreover have "is_whole (price apple) \<and> is_whole (price milk)"
    by (simp add: apple_def milk_def)
  ultimately show ?thesis using e h p 0 3 by simp
qed

text \<open>
  C2 as it was stated fails: four prices, each a double, whose floating-point
  total is \<open>2^53\<close> in one order and \<open>2^53 + 2\<close> in the reverse order, on both
  interpreters; neither is their arithmetic sum.
\<close>

theorem cart_total_order_counterexample:
  "add_items shopping
     (map (\<lambda>p. (CStr (asc ''x''), PyFloat (Fin p), None)) [2 ^ 53, 1, 1 / 2 ^ 53, 1 / 2 ^ 53]) =
     Inr (shopping\<lparr>cart := odd_cart\<rparr>) \<and>
   mset (rev odd_cart) = mset odd_cart \<and>
   calc_cart_total (sample_world\<lparr>python := Before_3_12\<rparr>) (shopping\<lparr>cart := odd_cart\<rparr>) =
     PyFloat (Fin (2 ^ 53)) \<and>
   calc_cart_total (sample_world\<lparr>python := Before_3_12\<rparr>) (shopping\<lparr>cart := rev odd_cart\<rparr>) =
     PyFloat (Fin (2 ^ 53 + 2)) \<and>
   calc_cart_total (sample_world\<lparr>python := From_3_12\<rparr>) (shopping\<lparr>cart := odd_cart\<rparr>) =
     PyFloat (Fin (2 ^ 53)) \<and>
   calc_cart_total (sample_world\<lparr>python := From_3_12\<rparr>) (shopping\<lparr>cart := rev odd_cart\<rparr>) =
     PyFloat (Fin (2 ^ 53 + 2)) \<and>
   exact_total odd_cart = 2 ^ 53 + 1 + 1 / 2 ^ 52 \<and>
   calc_cart_total sample_world (shopping\<lparr>cart := odd_cart\<rparr>) \<noteq>
     calc_cart_total sample_world (shopping\<lparr>cart := rev odd_cart\<rparr>)"
proof -
  have a: "add_items shopping
     (map (\<lambda>p. (CStr (asc ''x''), PyFloat (Fin p), None)) [2 ^ 53, 1, 1 / 2 ^ 53, 1 / 2 ^ 53]) =
     Inr (shopping\<lparr>cart := odd_cart\<rparr>)"
    by (simp add: add_to_cart_float odd_cart_def shopping_def)
  have p: "mset (rev odd_cart) = mset odd_cart" by simp
  have s1: "py_sum Before_3_12 [Fin (2 ^ 53), Fin 1, Fin (1 / 2 ^ 53), Fin (1 / 2 ^ 53)] =
      PyFloat (Fin (2 ^ 53))"
    by (simp add: py_sum_def rd)
  have s2: "py_sum Before_3_12 [Fin (1 / 2 ^ 53), Fin (1 / 2 ^ 53), Fin 1, Fin (2 ^ 53)] =
      PyFloat (Fin (2 ^ 53 + 2))"
    by (simp add: py_sum_def rd)
  have s3: "py_sum From_3_12 [Fin (2 ^ 53), Fin 1, Fin (1 / 2 ^ 53), Fin (1 / 2 ^ 53)] =
      PyFloat (Fin (2 ^ 53))"
    by (simp add: py_sum_def rd fsub_def)
  have s4: "py_sum From_3_12 [Fin (1 / 2 ^ 53), Fin (1 / 2 ^ 53), Fin 1, Fin (2 ^ 53)] =
      PyFloat (Fin (2 ^ 53 + 2))"
    by (simp add: py_sum_def rd fsub_def)
  have x: "exact_total odd_cart = 2 ^ 53 + 1 + 1 / 2 ^ 52"
    by (simp add: exact_total_def odd_cart_def)
  have w: "python sample_world = From_3_12" by (simp add: sample_world_def)
  from a p x w s1 s2 s3 s4 show ?thesis
    by (simp add: calc_cart_total_def odd_cart_def)
qed

end
